theory Spec2Isabelle
  imports Main "HOL-Library.List_Lexorder" "HOL-Library.AList" "HOL-Library.Multiset"
begin

section \<open>Python values\<close>

text \<open>
  A Python \<open>str\<close> is a sequence of Unicode code points. It is modelled as a list of natural
  numbers, one per code point, so that \<open>strip\<close>, the JSON escapes and the comparison of file
  names work on what Python works on. A literal of the source is written \<open>U ''...''\<close>.
\<close>

type_synonym ustr = "nat list"

abbreviation U :: "string \<Rightarrow> ustr" where
  "U s \<equiv> map of_char s"

text \<open>The exceptions that the modelled code can let escape.\<close>

datatype py_error =
  JSONDecodeError | RecursionError | ValueError | KeyError | TypeError | FileNotFoundError
  | TransportError

definition startswith :: "ustr \<Rightarrow> ustr \<Rightarrow> bool" where
  "startswith s p = (take (length p) s = p)"

definition endswith :: "ustr \<Rightarrow> ustr \<Rightarrow> bool" where
  "endswith s p = (length p \<le> length s \<and> drop (length s - length p) s = p)"

definition py_bind :: "py_error + 'a \<Rightarrow> ('a \<Rightarrow> py_error + 'b) \<Rightarrow> py_error + 'b" where
  "py_bind m f = (case m of Inl e \<Rightarrow> Inl e | Inr x \<Rightarrow> f x)"

section \<open>JSON values and \<open>json.loads\<close>\<close>

text \<open>
  The values \<open>json.loads\<close> builds: \<open>None\<close>, \<open>bool\<close>, \<open>int\<close>, \<open>float\<close>, \<open>str\<close>, \<open>list\<close> and
  \<open>dict\<close>. A \<open>dict\<close> is an association list in insertion order; \<open>AList.update\<close> is
  \<open>d[k] = v\<close>: it replaces the value of a key that is present, in place, and appends a new
  key. A \<open>float\<close> keeps the text of its literal: its numeric value is not computed.

  The decoder follows CPython's \<open>json\<close> module (the C scanner, which \<open>json.loads\<close> uses by
  default): \<open>scanstring\<close>, the number pattern, the constants, objects and arrays with
  whitespace skipped where the module skips it, a later duplicate key overwriting an earlier
  one, and \<open>Extra data\<close> after the value rejected. It reads the text from left to right and
  raises at the first place that fails: \<open>JSONDecodeError\<close> for text that is not JSON,
  \<open>RecursionError\<close> for nesting beyond what the recursion limit allows, \<open>ValueError\<close> for an
  integer literal beyond the digit limit of \<open>int\<close>. The call stack of the recursive decoder
  is the explicit \<open>frame list\<close>.
\<close>

datatype json = JNull | JBool bool | JInt int | JFloat ustr | JStr ustr
  | JList "json list" | JObj "(ustr \<times> json) list"

definition is_ws :: "nat \<Rightarrow> bool" where
  "is_ws c = (c = 32 \<or> c = 9 \<or> c = 10 \<or> c = 13)"

definition skip_ws :: "ustr \<Rightarrow> ustr" where
  "skip_ws s = dropWhile is_ws s"

definition is_digit :: "nat \<Rightarrow> bool" where
  "is_digit c = (48 \<le> c \<and> c \<le> 57)"

definition hex_value :: "nat \<Rightarrow> nat option" where
  "hex_value c =
     (if 48 \<le> c \<and> c \<le> 57 then Some (c - 48)
      else if 97 \<le> c \<and> c \<le> 102 then Some (c - 87)
      else if 65 \<le> c \<and> c \<le> 70 then Some (c - 55)
      else None)"

definition decode_uXXXX :: "ustr \<Rightarrow> nat option" where
  "decode_uXXXX s =
     (case s of
        a # b # c # d # rest \<Rightarrow>
          (case (hex_value a, hex_value b, hex_value c, hex_value d) of
             (Some x, Some y, Some z, Some w) \<Rightarrow> Some (((x * 16 + y) * 16 + z) * 16 + w)
           | _ \<Rightarrow> None)
      | _ \<Rightarrow> None)"

definition backslash_escape :: "nat \<Rightarrow> nat option" where
  "backslash_escape e =
     (if e = 34 then Some 34 else if e = 92 then Some 92 else if e = 47 then Some 47
      else if e = 98 then Some 8 else if e = 102 then Some 12 else if e = 110 then Some 10
      else if e = 114 then Some 13 else if e = 116 then Some 9 else None)"

definition low_surrogate_escape :: "ustr \<Rightarrow> nat option" where
  "low_surrogate_escape s =
     (case s of
        b # u # rest \<Rightarrow>
          (if b = 92 \<and> u = 117 then
             (case decode_uXXXX rest of
                Some c2 \<Rightarrow> if 56320 \<le> c2 \<and> c2 \<le> 57343 then Some c2 else None
              | None \<Rightarrow> None)
           else None)
      | _ \<Rightarrow> None)"

function scanstring :: "ustr \<Rightarrow> ustr \<Rightarrow> (ustr \<times> ustr) option" where
  "scanstring acc [] = None"
| "scanstring acc (c # cs) =
     (if c = 34 then Some (acc, cs)
      else if c = 92 then
        (case cs of
           [] \<Rightarrow> None
         | e # es \<Rightarrow>
             if e = 117 then
               (case decode_uXXXX es of
                  None \<Rightarrow> None
                | Some uni \<Rightarrow>
                    (case (if 55296 \<le> uni \<and> uni \<le> 56319 then low_surrogate_escape (drop 4 es) else None) of
                       Some uni2 \<Rightarrow>
                         scanstring (acc @ [65536 + (uni - 55296) * 1024 + (uni2 - 56320)]) (drop 10 es)
                     | None \<Rightarrow> scanstring (acc @ [uni]) (drop 4 es)))
             else
               (case backslash_escape e of
                  None \<Rightarrow> None
                | Some ch \<Rightarrow> scanstring (acc @ [ch]) es))
      else if c \<le> 31 then None
      else scanstring (acc @ [c]) cs)"
  by pat_completeness auto
termination
  by (relation "measure (\<lambda>(acc, s). length s)") auto


lemma scanstring_shorter: "scanstring acc s = Some (r, rest) \<Longrightarrow> length rest < length s"
proof (induction acc s rule: scanstring.induct)
  case (1 acc)
  then show ?case by simp
next
  case (2 acc c cs)
  then show ?case
    by (auto split: if_splits list.splits option.splits) force+
qed

definition digits_value :: "ustr \<Rightarrow> int" where
  "digits_value ds = foldl (\<lambda>v d. 10 * v + int (d - 48)) 0 ds"

definition match_fraction :: "ustr \<Rightarrow> ustr \<times> ustr" where
  "match_fraction s =
     (case s of
        p # d # ds \<Rightarrow>
          if p = 46 \<and> is_digit d then (p # d # takeWhile is_digit ds, dropWhile is_digit ds)
          else ([], s)
      | _ \<Rightarrow> ([], s))"

definition match_exponent :: "ustr \<Rightarrow> ustr \<times> ustr" where
  "match_exponent s =
     (case s of
        [] \<Rightarrow> ([], s)
      | e # es \<Rightarrow>
          if e = 101 \<or> e = 69 then
            (case es of
               [] \<Rightarrow> ([], s)
             | g # gs \<Rightarrow>
                 if is_digit g then (e # g # takeWhile is_digit gs, dropWhile is_digit gs)
                 else if (g = 43 \<or> g = 45) \<and> gs \<noteq> [] \<and> is_digit (hd gs)
                   then (e # g # takeWhile is_digit gs, dropWhile is_digit gs)
                 else ([], s))
          else ([], s))"

definition match_integer :: "ustr \<Rightarrow> (ustr \<times> ustr) option" where
  "match_integer s =
     (case s of
        [] \<Rightarrow> None
      | d # ds \<Rightarrow>
          if d = 48 then Some ([d], ds)
          else if 49 \<le> d \<and> d \<le> 57 then Some (d # takeWhile is_digit ds, dropWhile is_digit ds)
          else None)"

text \<open>
  The limits of the interpreter that \<open>json.loads\<close> can hit. The C scanner enters a
  recursive call for every array and object it opens, so it raises \<open>RecursionError\<close> at the
  bracket that would exceed the nesting the recursion limit still allows where \<open>json.loads\<close>
  is called (\<open>recursion_headroom\<close>). An integer literal of more than
  \<open>sys.get_int_max_str_digits()\<close> digits raises \<open>ValueError\<close> (\<open>int_max_str_digits\<close>: 4300 by
  default, 0 for no limit; fractions and exponents make a \<open>float\<close>, which has no such limit).
  The limits are a parameter of the decoder: they depend on the interpreter, on its settings
  and on the depth of the call.
\<close>

record limits =
  recursion_headroom :: nat
  errmsg_frames :: nat
  int_max_str_digits :: nat

text \<open>
  The scanner reports text that is not JSON in two ways. Where no value starts it raises
  \<open>StopIteration\<close>, which \<open>raw_decode\<close> turns into a \<open>JSONDecodeError\<close> once the scanner has
  returned. Everywhere else it calls \<open>raise_errmsg\<close>, which imports and calls the Python class
  \<open>JSONDecodeError\<close> at the depth the scanner has reached: these calls need
  \<open>errmsg_frames\<close> further levels of recursion, and when the limit does not leave them the
  exception that escapes is \<open>RecursionError\<close>.
\<close>

definition raise_errmsg :: "limits \<Rightarrow> nat \<Rightarrow> py_error" where
  "raise_errmsg lim depth =
     (if recursion_headroom lim < depth + errmsg_frames lim then RecursionError else JSONDecodeError)"

definition match_number :: "limits \<Rightarrow> ustr \<Rightarrow> py_error + (json \<times> ustr)" where
  "match_number lim s =
     (let (neg, s1) = (case s of [] \<Rightarrow> (False, s) | c # cs \<Rightarrow> if c = 45 then (True, cs) else (False, s))
      in case match_integer s1 of
           None \<Rightarrow> Inl JSONDecodeError
         | Some (integer, s2) \<Rightarrow>
             (let (frac, s3) = match_fraction s2;
                  (exp, s4) = match_exponent s3
              in if frac = [] \<and> exp = []
                 then (if 0 < int_max_str_digits lim \<and> int_max_str_digits lim < length integer
                       then Inl ValueError
                       else Inr (JInt (if neg then - digits_value integer else digits_value integer), s4))
                 else Inr (JFloat ((if neg then [45] else []) @ integer @ frac @ exp), s4)))"

definition scan_atom :: "limits \<Rightarrow> nat \<Rightarrow> ustr \<Rightarrow> py_error + (json \<times> ustr)" where
  "scan_atom lim depth s =
     (case s of
        [] \<Rightarrow> Inl JSONDecodeError
      | c # cs \<Rightarrow>
          if c = 34 then
            (case scanstring [] cs of
               None \<Rightarrow> Inl (raise_errmsg lim depth)
             | Some (str, rest) \<Rightarrow> Inr (JStr str, rest))
          else if take 4 s = U ''null'' then Inr (JNull, drop 4 s)
          else if take 4 s = U ''true'' then Inr (JBool True, drop 4 s)
          else if take 5 s = U ''false'' then Inr (JBool False, drop 5 s)
          else if take 3 s = U ''NaN'' then Inr (JFloat (U ''NaN''), drop 3 s)
          else if take 8 s = U ''Infinity'' then Inr (JFloat (U ''Infinity''), drop 8 s)
          else if take 9 s = U ''-Infinity'' then Inr (JFloat (U ''-Infinity''), drop 9 s)
          else match_number lim s)"

text \<open>A property name with its colon; every failure here goes through \<open>raise_errmsg\<close>.\<close>

definition scan_key :: "ustr \<Rightarrow> (ustr \<times> ustr) option" where
  "scan_key s =
     (case s of
        [] \<Rightarrow> None
      | q # cs \<Rightarrow>
          if q \<noteq> 34 then None
          else (case scanstring [] cs of
                  None \<Rightarrow> None
                | Some (key, rest) \<Rightarrow>
                    (case skip_ws rest of
                       [] \<Rightarrow> None
                     | d # ds \<Rightarrow> if d = 58 then Some (key, skip_ws ds) else None)))"

datatype frame = InArray "json list" | InObject "(ustr \<times> json) list" ustr

lemma skip_ws_length: "length (skip_ws s) \<le> length s"
  by (simp add: skip_ws_def length_dropWhile_le)

lemma skip_ws_Cons_shorter: "skip_ws s = d # ds \<Longrightarrow> length ds < length s"
  using skip_ws_length [of s] by simp

lemma match_integer_shorter: "match_integer s = Some (i, rest) \<Longrightarrow> length rest < length s"
  by (auto simp: match_integer_def length_dropWhile_le less_Suc_eq_le split: list.splits if_splits)

lemma match_fraction_le: "match_fraction s = (f, rest) \<Longrightarrow> length rest \<le> length s"
  by (auto simp: match_fraction_def length_dropWhile_le le_SucI split: list.splits if_splits)

lemma match_exponent_le: "match_exponent s = (e, rest) \<Longrightarrow> length rest \<le> length s"
  by (auto simp: match_exponent_def length_dropWhile_le le_SucI split: list.splits if_splits)

lemma match_number_shorter: "match_number lim s = Inr (v, rest) \<Longrightarrow> length rest < length s"
proof -
  assume a: "match_number lim s = Inr (v, rest)"
  obtain neg s1 where s1: "(case s of [] \<Rightarrow> (False, s) | c # cs \<Rightarrow> if c = 45 then (True, cs) else (False, s)) = (neg, s1)"
    by (cases "(case s of [] \<Rightarrow> (False, s) | c # cs \<Rightarrow> if c = 45 then (True, cs) else (False, s))") auto
  then have l1: "length s1 \<le> length s"
    by (auto split: list.splits if_splits)
  from a s1 obtain integer s2 where i: "match_integer s1 = Some (integer, s2)"
    by (auto simp: match_number_def split: option.splits)
  obtain frac s3 where f: "match_fraction s2 = (frac, s3)"
    by (cases "match_fraction s2") auto
  obtain exp s4 where e: "match_exponent s3 = (exp, s4)"
    by (cases "match_exponent s3") auto
  from a s1 i f e have "rest = s4"
    by (auto simp: match_number_def split: if_splits)
  with match_integer_shorter [OF i] match_fraction_le [OF f] match_exponent_le [OF e] l1
  show ?thesis by simp
qed

lemma scan_atom_shorter: "scan_atom lim depth s = Inr (v, rest) \<Longrightarrow> length rest < length s"
  by (auto simp: scan_atom_def split: list.splits if_splits option.splits
      dest: match_number_shorter dest!: scanstring_shorter)

lemma scan_key_shorter: "scan_key s = Some (k, rest) \<Longrightarrow> length rest < length s"
proof -
  assume a: "scan_key s = Some (k, rest)"
  then obtain q cs r d ds where s: "s = q # cs" and sc: "scanstring [] cs = Some (k, r)"
    and w: "skip_ws r = d # ds" and rest: "rest = skip_ws ds"
    by (auto simp: scan_key_def split: list.splits if_splits option.splits)
  from scanstring_shorter [OF sc] skip_ws_Cons_shorter [OF w] skip_ws_length [of ds] s rest
  show ?thesis by simp
qed

lemma skip_ws_less: "length s < n \<Longrightarrow> length (skip_ws s) < n"
  by (rule le_less_trans [OF skip_ws_length])

lemma less_skip_ws: "n < length (skip_ws s) \<Longrightarrow> n < length s"
  by (rule less_le_trans [OF _ skip_ws_length])

text \<open>
  \<open>parse_value\<close> reads the value that starts at the head of the text, \<open>parse_after\<close> goes on
  after a value has been read. The \<open>stack\<close> holds the arrays and objects that are open, so its
  length is the depth of the recursion of the scanner.
\<close>

function parse_value :: "limits \<Rightarrow> frame list \<Rightarrow> ustr \<Rightarrow> py_error + (json \<times> ustr)"
  and parse_after :: "limits \<Rightarrow> json \<Rightarrow> frame list \<Rightarrow> ustr \<Rightarrow> py_error + (json \<times> ustr)" where
  "parse_value lim stack [] = Inl JSONDecodeError"
| "parse_value lim stack (c # cs) =
     (if c = 123 then
        (if recursion_headroom lim \<le> length stack then Inl RecursionError
         else
           (case skip_ws cs of
              [] \<Rightarrow> Inl (raise_errmsg lim (Suc (length stack)))
            | d # ds \<Rightarrow>
                if d = 125 then parse_after lim (JObj []) stack ds
                else (case scan_key (d # ds) of
                        None \<Rightarrow> Inl (raise_errmsg lim (Suc (length stack)))
                      | Some (key, rest) \<Rightarrow> parse_value lim (InObject [] key # stack) rest)))
      else if c = 91 then
        (if recursion_headroom lim \<le> length stack then Inl RecursionError
         else
           (case skip_ws cs of
              [] \<Rightarrow> Inl JSONDecodeError
            | d # ds \<Rightarrow>
                if d = 93 then parse_after lim (JList []) stack ds
                else parse_value lim (InArray [] # stack) (d # ds)))
      else
        (case scan_atom lim (length stack) (c # cs) of
           Inl e \<Rightarrow> Inl e
         | Inr (v, rest) \<Rightarrow> parse_after lim v stack rest))"
| "parse_after lim v [] s = Inr (v, s)"
| "parse_after lim v (InArray elems # stack) s =
     (case skip_ws s of
        [] \<Rightarrow> Inl (raise_errmsg lim (Suc (length stack)))
      | d # ds \<Rightarrow>
          if d = 93 then parse_after lim (JList (elems @ [v])) stack ds
          else if d = 44 then parse_value lim (InArray (elems @ [v]) # stack) (skip_ws ds)
          else Inl (raise_errmsg lim (Suc (length stack))))"
| "parse_after lim v (InObject pairs key # stack) s =
     (case skip_ws s of
        [] \<Rightarrow> Inl (raise_errmsg lim (Suc (length stack)))
      | d # ds \<Rightarrow>
          if d = 125 then parse_after lim (JObj (AList.update key v pairs)) stack ds
          else if d = 44 then
            (case scan_key (skip_ws ds) of
               None \<Rightarrow> Inl (raise_errmsg lim (Suc (length stack)))
             | Some (key', rest) \<Rightarrow>
                 parse_value lim (InObject (AList.update key v pairs) key' # stack) rest)
          else Inl (raise_errmsg lim (Suc (length stack))))"
  by pat_completeness auto
termination
proof (relation "measure (\<lambda>x. case x of Inl (lim, stack, s) \<Rightarrow> length s | Inr (lim, v, stack, s) \<Rightarrow> length s)")
qed (auto dest!: skip_ws_Cons_shorter scan_key_shorter scan_atom_shorter less_skip_ws intro: skip_ws_less)

definition json_loads :: "limits \<Rightarrow> ustr \<Rightarrow> py_error + json" where
  "json_loads lim s =
     (if startswith s [65279] then Inl JSONDecodeError
      else case parse_value lim [] (skip_ws s) of
             Inl e \<Rightarrow> Inl e
           | Inr (obj, rest) \<Rightarrow> if skip_ws rest = [] then Inr obj else Inl JSONDecodeError)"

section \<open>ResponseNormalizer (reasoning\_agent.py)\<close>

subsection \<open>\<open>_strip_code_fences\<close>\<close>

text \<open>
  \<open>str.strip()\<close> removes the code points for which \<open>str.isspace\<close> holds from both ends;
  \<open>strip("`")\<close> removes backticks. \<open>t.lower().startswith("json")\<close> holds exactly when the
  first four code points of \<open>t\<close> are the letters j, s, o, n in either case: no other code
  point has one of these letters as its lowercase, so \<open>t[4:]\<close> drops these four.
\<close>

definition isspace :: "nat \<Rightarrow> bool" where
  "isspace c =
     ((9 \<le> c \<and> c \<le> 13) \<or> (28 \<le> c \<and> c \<le> 32) \<or> c = 133 \<or> c = 160 \<or> c = 5760
      \<or> (8192 \<le> c \<and> c \<le> 8202) \<or> c = 8232 \<or> c = 8233 \<or> c = 8239 \<or> c = 8287 \<or> c = 12288)"

definition strip_chars :: "(nat \<Rightarrow> bool) \<Rightarrow> ustr \<Rightarrow> ustr" where
  "strip_chars p s = rev (dropWhile p (rev (dropWhile p s)))"

definition strip :: "ustr \<Rightarrow> ustr" where
  "strip s = strip_chars isspace s"

definition lower_startswith_json :: "ustr \<Rightarrow> bool" where
  "lower_startswith_json t =
     (case t of
        a # b # c # d # rest \<Rightarrow>
          (a = 106 \<or> a = 74) \<and> (b = 115 \<or> b = 83) \<and> (c = 111 \<or> c = 79) \<and> (d = 110 \<or> d = 78)
      | _ \<Rightarrow> False)"

definition strip_code_fences :: "ustr \<Rightarrow> ustr" where
  "strip_code_fences text =
     (let t = strip text in
      if startswith t [96, 96, 96] then
        (let t = strip (strip_chars (\<lambda>c. c = 96) t) in
         if lower_startswith_json t then strip (drop 4 t) else t)
      else t)"

subsection \<open>Coercions\<close>

text \<open>
  \<open>str(x)\<close> returns \<open>x\<close> itself when \<open>x\<close> is a \<open>str\<close>. What it prints for a number, a
  boolean, a list or a dict is the parameter \<open>render\<close>: the results below hold whatever that
  text is.
\<close>

type_synonym dict = "(ustr \<times> json) list"

definition py_str :: "(json \<Rightarrow> ustr) \<Rightarrow> json \<Rightarrow> ustr" where
  "py_str render x = (case x of JStr s \<Rightarrow> s | _ \<Rightarrow> render x)"

definition ensure_list_of_str :: "(json \<Rightarrow> ustr) \<Rightarrow> json \<Rightarrow> ustr list" where
  "ensure_list_of_str render x =
     (case x of
        JList xs \<Rightarrow> map (py_str render) (filter (\<lambda>i. i \<noteq> JNull) xs)
      | _ \<Rightarrow> [])"

definition ensure_str :: "(json \<Rightarrow> ustr) \<Rightarrow> json \<Rightarrow> ustr" where
  "ensure_str render x = (if x = JNull then [] else py_str render x)"

text \<open>A list of \<open>str\<close> stored in a dict, \<open>isinstance(x, dict)\<close> with its default, \<open>d.get(k, default)\<close>,
  and the subscriptions \<open>d[k]\<close> that the normalizer makes on its own output.\<close>

definition str_list :: "ustr list \<Rightarrow> json" where
  "str_list xs = JList (map JStr xs)"

definition as_dict :: "json \<Rightarrow> dict" where
  "as_dict x = (case x of JObj d \<Rightarrow> d | _ \<Rightarrow> [])"

definition dict_get :: "dict \<Rightarrow> ustr \<Rightarrow> json \<Rightarrow> json" where
  "dict_get d k dflt = (case map_of d k of None \<Rightarrow> dflt | Some v \<Rightarrow> v)"

definition getitem :: "dict \<Rightarrow> ustr \<Rightarrow> py_error + json" where
  "getitem d k = (case map_of d k of None \<Rightarrow> Inl KeyError | Some v \<Rightarrow> Inr v)"

definition getlist :: "dict \<Rightarrow> ustr \<Rightarrow> py_error + json list" where
  "getlist d k =
     (case map_of d k of
        None \<Rightarrow> Inl KeyError
      | Some v \<Rightarrow> (case v of JList xs \<Rightarrow> Inr xs | _ \<Rightarrow> Inl TypeError))"

definition getdict :: "dict \<Rightarrow> ustr \<Rightarrow> py_error + dict" where
  "getdict d k =
     (case map_of d k of
        None \<Rightarrow> Inl KeyError
      | Some v \<Rightarrow> (case v of JObj e \<Rightarrow> Inr e | _ \<Rightarrow> Inl TypeError))"

subsection \<open>\<open>_normalize_single_action_json\<close>\<close>

definition skeleton_single :: dict where
  "skeleton_single =
     [(U ''intent'', JStr []),
      (U ''next_step'', JStr []),
      (U ''explanation'', JStr []),
      (U ''environment'', JObj [(U ''scene_type'', JStr []), (U ''key_objects'', JList [])]),
      (U ''agent_state'', JStr []),
      (U ''affordances'', JList []),
      (U ''constraints'', JList []),
      (U ''task_goal'', JStr []),
      (U ''current_step'', JStr []),
      (U ''future_steps'', JList []),
      (U ''target_objects'', JList [])]"

definition string_keys :: "ustr list" where
  "string_keys =
     [U ''intent'', U ''next_step'', U ''explanation'', U ''agent_state'', U ''task_goal'',
      U ''current_step'']"

text \<open>The loop \<open>for k in [...]: out[k] = _ensure_str(data.get(k, out[k]))\<close>.\<close>

fun ensure_strings :: "(json \<Rightarrow> ustr) \<Rightarrow> dict \<Rightarrow> ustr list \<Rightarrow> dict \<Rightarrow> py_error + dict" where
  "ensure_strings render data [] out = Inr out"
| "ensure_strings render data (k # ks) out =
     py_bind (getitem out k) (\<lambda>dflt.
       ensure_strings render data ks (AList.update k (JStr (ensure_str render (dict_get data k dflt))) out))"

text \<open>\<open>out["environment"][k] = v\<close>.\<close>

definition set_environment :: "ustr \<Rightarrow> json \<Rightarrow> dict \<Rightarrow> py_error + dict" where
  "set_environment k v out =
     py_bind (getdict out (U ''environment'')) (\<lambda>env.
       Inr (AList.update (U ''environment'') (JObj (AList.update k v env)) out))"

text \<open>
  The three blocks \<open>if len(out[k]) < minimum: out[k] = (out[k] + [canned, ...])[:cap]\<close>.
\<close>

definition backfill :: "ustr \<Rightarrow> nat \<Rightarrow> ustr list \<Rightarrow> nat \<Rightarrow> dict \<Rightarrow> py_error + dict" where
  "backfill k minimum canned cap out =
     py_bind (getlist out k) (\<lambda>xs.
       if length xs < minimum then Inr (AList.update k (JList (take cap (xs @ map JStr canned))) out)
       else Inr out)"

definition canned_affordances :: "ustr list" where
  "canned_affordances =
     [U ''approach relevant object safely'',
      U ''grasp/manipulate the object'',
      U ''move to the next location or step'']"

definition canned_constraints :: "ustr list" where
  "canned_constraints =
     [U ''avoid collisions with people/objects'',
      U ''ensure stable footing and safe motion'']"

definition canned_future_steps :: "ustr list" where
  "canned_future_steps =
     [U ''complete the immediate subtask'',
      U ''transition to the next goal-oriented action'']"

definition canned_target_objects :: "ustr list" where
  "canned_target_objects = [U ''relevant object'', U ''destination'']"

text \<open>The block on \<open>target_objects\<close>: candidates from \<open>environment.key_objects\<close> when that
  list is not empty, the canned placeholders otherwise.\<close>

definition backfill_target_objects :: "dict \<Rightarrow> py_error + dict" where
  "backfill_target_objects out =
     py_bind (getlist out (U ''target_objects'')) (\<lambda>xs.
       if length xs < 2 then
         py_bind (getdict out (U ''environment'')) (\<lambda>env.
           py_bind (getlist env (U ''key_objects'')) (\<lambda>candidates.
             if candidates \<noteq> [] then
               Inr (AList.update (U ''target_objects'') (JList (take 4 (xs @ candidates))) out)
             else
               Inr (AList.update (U ''target_objects'')
                      (JList (take 4 (xs @ map JStr canned_target_objects))) out)))
       else Inr out)"

definition normalize_single_action_json :: "(json \<Rightarrow> ustr) \<Rightarrow> json \<Rightarrow> py_error + dict" where
  "normalize_single_action_json render data0 =
     (let data = as_dict data0 in
      py_bind (ensure_strings render data string_keys skeleton_single) (\<lambda>out.
      let env = as_dict (dict_get data (U ''environment'') (JObj [])) in
      py_bind (set_environment (U ''scene_type'')
                 (JStr (ensure_str render (dict_get env (U ''scene_type'') (JStr [])))) out) (\<lambda>out.
      py_bind (set_environment (U ''key_objects'')
                 (str_list (ensure_list_of_str render (dict_get env (U ''key_objects'') (JList [])))) out) (\<lambda>out.
      let out = AList.update (U ''affordances'')
                  (str_list (ensure_list_of_str render (dict_get data (U ''affordances'') (JList [])))) out;
          out = AList.update (U ''constraints'')
                  (str_list (ensure_list_of_str render (dict_get data (U ''constraints'') (JList [])))) out;
          out = AList.update (U ''future_steps'')
                  (str_list (ensure_list_of_str render (dict_get data (U ''future_steps'') (JList [])))) out;
          out = AList.update (U ''target_objects'')
                  (str_list (ensure_list_of_str render (dict_get data (U ''target_objects'') (JList [])))) out
      in
      py_bind (backfill (U ''affordances'') 3 canned_affordances 5 out) (\<lambda>out.
      py_bind (backfill (U ''constraints'') 2 canned_constraints 4 out) (\<lambda>out.
      py_bind (backfill (U ''future_steps'') 2 canned_future_steps 4 out) (\<lambda>out.
      backfill_target_objects out)))))))"

subsection \<open>\<open>_normalize_temporal_json\<close>\<close>

definition skeleton_temporal :: dict where
  "skeleton_temporal =
     [(U ''overall_task'', JStr []),
      (U ''step_roles'', JList []),
      (U ''possible_goal'', JStr []),
      (U ''future_plan'', JList []),
      (U ''uncertainty_notes'', JList [])]"

definition normalize_temporal_json :: "(json \<Rightarrow> ustr) \<Rightarrow> json \<Rightarrow> dict" where
  "normalize_temporal_json render data0 =
     (let out = skeleton_temporal;
          data = as_dict data0;
          out = AList.update (U ''overall_task'')
                  (JStr (ensure_str render (dict_get data (U ''overall_task'') (JStr [])))) out;
          out = AList.update (U ''possible_goal'')
                  (JStr (ensure_str render (dict_get data (U ''possible_goal'') (JStr [])))) out;
          out = AList.update (U ''step_roles'')
                  (str_list (ensure_list_of_str render (dict_get data (U ''step_roles'') (JList [])))) out;
          out = AList.update (U ''future_plan'')
                  (str_list (ensure_list_of_str render (dict_get data (U ''future_plan'') (JList [])))) out;
          notes = dict_get data (U ''uncertainty_notes'') (JList []);
          out = AList.update (U ''uncertainty_notes'') (str_list (ensure_list_of_str render notes)) out
      in out)"

subsection \<open>From the response text to the reasoning objects\<close>

text \<open>
  \<open>normalizeSingle\<close> is what \<open>llm_reasoning\<close> does with the text of the response (lines
  213 to 232), \<open>normalizeTemporal\<close> what \<open>llm_temporal_reasoning\<close> does with it (lines 272 to
  284): strip the fences, \<open>json.loads\<close>, the fallback object on \<open>JSONDecodeError\<close>, the
  normalizer. The \<open>except\<close> clause names \<open>json.JSONDecodeError\<close> only: any other exception of
  \<open>json.loads\<close> leaves the function.
\<close>

definition fallback_single :: "ustr \<Rightarrow> json" where
  "fallback_single content =
     JObj [(U ''intent'', JStr []),
           (U ''next_step'', JStr []),
           (U ''explanation'', JStr content),
           (U ''environment'', JObj [(U ''scene_type'', JStr []), (U ''key_objects'', JList [])]),
           (U ''agent_state'', JStr []),
           (U ''affordances'', JList []),
           (U ''constraints'', JList []),
           (U ''task_goal'', JStr []),
           (U ''current_step'', JStr []),
           (U ''future_steps'', JList []),
           (U ''target_objects'', JList [])]"

definition normalizeSingle :: "limits \<Rightarrow> (json \<Rightarrow> ustr) \<Rightarrow> ustr \<Rightarrow> py_error + dict" where
  "normalizeSingle lim render raw =
     (let content = strip_code_fences raw in
      case json_loads lim content of
        Inr data \<Rightarrow> normalize_single_action_json render data
      | Inl e \<Rightarrow>
          if e = JSONDecodeError then normalize_single_action_json render (fallback_single content)
          else Inl e)"

definition fallback_temporal :: "ustr \<Rightarrow> json" where
  "fallback_temporal content =
     JObj [(U ''overall_task'', JStr []),
           (U ''step_roles'', JList []),
           (U ''possible_goal'', JStr []),
           (U ''future_plan'', JList []),
           (U ''uncertainty_notes'', JList [JStr content])]"

definition normalizeTemporal :: "limits \<Rightarrow> (json \<Rightarrow> ustr) \<Rightarrow> ustr \<Rightarrow> py_error + dict" where
  "normalizeTemporal lim render raw =
     (let content = strip_code_fences raw in
      case json_loads lim content of
        Inr data \<Rightarrow> Inr (normalize_temporal_json render data)
      | Inl e \<Rightarrow>
          if e = JSONDecodeError then Inr (normalize_temporal_json render (fallback_temporal content))
          else Inl e)"

text \<open>
  The request to the model is built from the action label, or from the ordered history; the
  transport either raises or returns the message content, which may be \<open>None\<close>.
\<close>

datatype request = SingleRequest ustr | TemporalRequest "ustr list"

definition content_or_empty :: "ustr option \<Rightarrow> ustr" where
  "content_or_empty content = (case content of None \<Rightarrow> [] | Some t \<Rightarrow> t)"

definition llm_reasoning ::
  "limits \<Rightarrow> (json \<Rightarrow> ustr) \<Rightarrow> (request \<Rightarrow> py_error + ustr option) \<Rightarrow> ustr \<Rightarrow> py_error + dict" where
  "llm_reasoning lim render create action_label =
     py_bind (create (SingleRequest action_label)) (\<lambda>content.
       normalizeSingle lim render (content_or_empty content))"

definition llm_temporal_reasoning ::
  "limits \<Rightarrow> (json \<Rightarrow> ustr) \<Rightarrow> (request \<Rightarrow> py_error + ustr option) \<Rightarrow> ustr list
     \<Rightarrow> py_error + dict" where
  "llm_temporal_reasoning lim render create action_history =
     (if action_history = [] then Inr (normalize_temporal_json render (JObj []))
      else py_bind (create (TemporalRequest action_history)) (\<lambda>content.
             normalizeTemporal lim render (content_or_empty content)))"

section \<open>FeatureEncoder: \<open>keypoints_to_vector\<close> (build\_dataset.py)\<close>

text \<open>
  \<open>keypoints\<close> is \<open>None\<close> or a list of rows of numbers. \<open>np.array(keypoints, dtype=np.float32)\<close>
  raises \<open>ValueError\<close> on rows of different lengths; the conversion of one number to float32 is
  the parameter \<open>f32\<close>. \<open>reshape(-1, 3)\<close> raises \<open>ValueError\<close> when the number of elements is
  not a multiple of 3, and \<open>flatten()\<close> is the row-major sequence of the elements.
\<close>

definition np_array :: "('r \<Rightarrow> 'f) \<Rightarrow> 'r list list \<Rightarrow> py_error + 'f list" where
  "np_array f32 rows =
     (if \<exists>r \<in> set rows. length r \<noteq> length (hd rows) then Inl ValueError
      else Inr (map f32 (concat rows)))"

definition reshape3_flatten :: "'f list \<Rightarrow> py_error + 'f list" where
  "reshape3_flatten elems = (if length elems mod 3 \<noteq> 0 then Inl ValueError else Inr elems)"

definition keypoints_to_vector :: "('r \<Rightarrow> 'f::zero) \<Rightarrow> 'r list list option \<Rightarrow> nat \<Rightarrow> py_error + 'f list" where
  "keypoints_to_vector f32 keypoints dim =
     (case keypoints of
        None \<Rightarrow> Inr (replicate dim 0)
      | Some rows \<Rightarrow>
          (case np_array f32 rows of
             Inl e \<Rightarrow> Inl e
           | Inr arr \<Rightarrow>
               (case reshape3_flatten arr of
                  Inl e \<Rightarrow> Inl e
                | Inr flat \<Rightarrow>
                    if length flat \<ge> dim then Inr (take dim flat)
                    else Inr (flat @ replicate (dim - length flat) 0))))"

text \<open>A detection as the pose store holds it: an ordered sequence of (x, y, confidence) triples.\<close>

definition detection_rows :: "('r \<times> 'r \<times> 'r) list \<Rightarrow> 'r list list" where
  "detection_rows det = map (\<lambda>(x, y, c). [x, y, c]) det"

definition flattened :: "('r \<Rightarrow> 'f) \<Rightarrow> ('r \<times> 'r \<times> 'r) list \<Rightarrow> 'f list" where
  "flattened f32 det = map f32 (concat (detection_rows det))"

section \<open>ClipAggregator: \<open>classify_video\<close> (full\_pipeline.py)\<close>

definition ACTIONS :: "ustr list" where
  "ACTIONS = [U ''open_door'', U ''pick_book'', U ''pour_water'', U ''walk_stop'']"

text \<open>\<open>IDX_TO_LABEL = {idx: label for idx, label in enumerate(ACTIONS)}\<close>; \<open>None\<close> is a missing key.\<close>

definition IDX_TO_LABEL :: "int \<Rightarrow> ustr option" where
  "IDX_TO_LABEL = map_of (zip (map int [0..<length ACTIONS]) ACTIONS)"

text \<open>
  The pose store: for a folder name, \<open>None\<close> when there is no such directory, else its
  listing, each file name with the \<open>keypoints\<close> entry of the file (\<open>None\<close> for no detection).
\<close>

type_synonym 'r pose_dir = "(ustr \<times> 'r list list option) list"

definition json_files :: "'r pose_dir \<Rightarrow> ustr list" where
  "json_files dir = sort (filter (\<lambda>f. endswith f (U ''.json'') \<and> \<not> startswith f (U ''.'')) (map fst dir))"

fun load_features :: "('r \<Rightarrow> 'f::zero) \<Rightarrow> 'r pose_dir \<Rightarrow> ustr list \<Rightarrow> py_error + 'f list list" where
  "load_features f32 dir [] = Inr []"
| "load_features f32 dir (fname # fnames) =
     (case map_of dir fname of
        None \<Rightarrow> Inl FileNotFoundError
      | Some keypoints \<Rightarrow>
          py_bind (keypoints_to_vector f32 keypoints 51) (\<lambda>feature_vec.
            py_bind (load_features f32 dir fnames) (\<lambda>features. Inr (feature_vec # features))))"

text \<open>\<open>np.unique(frame_preds, return_counts=True)\<close>: the distinct values in ascending order, and
  how often each occurs. \<open>np.argmax\<close>: the first index of the largest entry, \<open>ValueError\<close> on
  an empty array.\<close>

definition np_unique :: "int list \<Rightarrow> int list \<times> nat list" where
  "np_unique xs = (let u = sort (remdups xs) in (u, map (count_list xs) u))"

fun first_index :: "'a \<Rightarrow> 'a list \<Rightarrow> nat" where
  "first_index v [] = 0"
| "first_index v (x # xs) = (if x = v then 0 else Suc (first_index v xs))"

definition np_argmax :: "nat list \<Rightarrow> py_error + nat" where
  "np_argmax cs = (if cs = [] then Inl ValueError else Inr (first_index (fold max cs 0) cs))"

text \<open>The comprehension \<open>{IDX_TO_LABEL[int(k)]: int(v) for k, v in zip(unique, counts)}\<close>.\<close>

fun count_dict_of :: "(ustr \<times> nat) list \<Rightarrow> (int \<times> nat) list \<Rightarrow> py_error + (ustr \<times> nat) list" where
  "count_dict_of d [] = Inr d"
| "count_dict_of d ((k, v) # kvs) =
     (case IDX_TO_LABEL k of
        None \<Rightarrow> Inl KeyError
      | Some label \<Rightarrow> count_dict_of (AList.update label v d) kvs)"

definition majority_vote :: "int list \<Rightarrow> py_error + (ustr option \<times> (ustr \<times> nat) list)" where
  "majority_vote frame_preds =
     (let (unique, counts) = np_unique frame_preds in
      py_bind (count_dict_of [] (zip unique counts)) (\<lambda>count_dict.
      py_bind (np_argmax counts) (\<lambda>i.
        case IDX_TO_LABEL (unique ! i) of
          None \<Rightarrow> Inl KeyError
        | Some majority_label \<Rightarrow> Inr (Some majority_label, count_dict))))"

definition classify_video ::
  "('r \<Rightarrow> 'f::zero) \<Rightarrow> (ustr \<Rightarrow> 'r pose_dir option) \<Rightarrow> ustr \<Rightarrow> ('f list list \<Rightarrow> int list)
     \<Rightarrow> ('f list list \<Rightarrow> 'f list list) \<Rightarrow> py_error + (ustr option \<times> (ustr \<times> nat) list)" where
  "classify_video f32 store action_name model_predict scaler_transform =
     (case store action_name of
        None \<Rightarrow> Inr (None, [])
      | Some dir \<Rightarrow>
          if json_files dir = [] then Inr (None, [])
          else py_bind (load_features f32 dir (json_files dir)) (\<lambda>features.
                 majority_vote (model_predict (scaler_transform features))))"

section \<open>PipelineOrchestrator: \<open>main\<close> (full\_pipeline.py)\<close>

text \<open>
  What a run has produced so far: the history of majority labels, the per-action reasoning
  objects printed, the temporal reasoning object printed (if any) and the number of requests
  sent to the model. The transport \<open>create\<close> gets the number of the request, so that it may
  answer the same prompt differently at different times.
\<close>

record run =
  action_history :: "ustr list"
  per_action :: "dict list"
  temporal :: "dict option"
  requests :: nat

fun main_loop ::
  "limits \<Rightarrow> (json \<Rightarrow> ustr) \<Rightarrow> (nat \<Rightarrow> request \<Rightarrow> py_error + ustr option) \<Rightarrow> ('r \<Rightarrow> 'f::zero)
     \<Rightarrow> (ustr \<Rightarrow> 'r pose_dir option) \<Rightarrow> ('f list list \<Rightarrow> int list) \<Rightarrow> ('f list list \<Rightarrow> 'f list list)
     \<Rightarrow> ustr list \<Rightarrow> run \<Rightarrow> py_error + run" where
  "main_loop lim render create f32 store model scaler [] st = Inr st"
| "main_loop lim render create f32 store model scaler (action # actions) st =
     py_bind (classify_video f32 store action model scaler) (\<lambda>(predicted_label, frame_counts).
       case predicted_label of
         None \<Rightarrow> main_loop lim render create f32 store model scaler actions st
       | Some label \<Rightarrow>
           py_bind (llm_reasoning lim render (create (requests st)) label) (\<lambda>reasoning.
             main_loop lim render create f32 store model scaler actions
               (st\<lparr>action_history := action_history st @ [label],
                   per_action := per_action st @ [reasoning],
                   requests := Suc (requests st)\<rparr>)))"

definition main ::
  "limits \<Rightarrow> (json \<Rightarrow> ustr) \<Rightarrow> (nat \<Rightarrow> request \<Rightarrow> py_error + ustr option) \<Rightarrow> ('r \<Rightarrow> 'f::zero)
     \<Rightarrow> (ustr \<Rightarrow> 'r pose_dir option) \<Rightarrow> ('f list list \<Rightarrow> int list) \<Rightarrow> ('f list list \<Rightarrow> 'f list list)
     \<Rightarrow> py_error + run" where
  "main lim render create f32 store model scaler =
     py_bind (main_loop lim render create f32 store model scaler ACTIONS
                \<lparr>action_history = [], per_action = [], temporal = None, requests = 0\<rparr>) (\<lambda>st.
       if action_history st \<noteq> [] then
         py_bind (llm_temporal_reasoning lim render (create (requests st)) (action_history st)) (\<lambda>temporal_result.
           Inr (st\<lparr>temporal := Some temporal_result, requests := Suc (requests st)\<rparr>))
       else Inr st)"

section \<open>Notions used in the statements\<close>

text \<open>The declared types of the fields: a string, a list of strings.\<close>

definition is_str :: "json \<Rightarrow> bool" where
  "is_str v = (case v of JStr s \<Rightarrow> True | _ \<Rightarrow> False)"

definition is_list :: "json \<Rightarrow> bool" where
  "is_list v = (case v of JList xs \<Rightarrow> True | _ \<Rightarrow> False)"

definition is_str_list :: "json \<Rightarrow> bool" where
  "is_str_list v = (case v of JList xs \<Rightarrow> list_all is_str xs | _ \<Rightarrow> False)"

definition has_type :: "(json \<Rightarrow> bool) \<Rightarrow> dict \<Rightarrow> ustr \<Rightarrow> bool" where
  "has_type ty d k = (case map_of d k of None \<Rightarrow> False | Some v \<Rightarrow> ty v)"

definition list_keys :: "ustr list" where
  "list_keys = [U ''affordances'', U ''constraints'', U ''future_steps'', U ''target_objects'']"

text \<open>
  The schema of the single-action object: exactly the eleven keys, six strings, four lists of
  strings, and \<open>environment\<close> an object of exactly \<open>scene_type\<close>, a string, and \<open>key_objects\<close>,
  a list of strings.
\<close>

definition has_single_schema :: "dict \<Rightarrow> bool" where
  "has_single_schema out =
     (map fst out = map fst skeleton_single
      \<and> list_all (has_type is_str out) string_keys
      \<and> list_all (has_type is_str_list out) list_keys
      \<and> (case map_of out (U ''environment'') of
            None \<Rightarrow> False
          | Some e \<Rightarrow>
              (case e of
                 JObj env \<Rightarrow>
                   map fst env = [U ''scene_type'', U ''key_objects'']
                   \<and> has_type is_str env (U ''scene_type'')
                   \<and> has_type is_str_list env (U ''key_objects'')
               | _ \<Rightarrow> False)))"

text \<open>Reading a field of a result that may be an exception.\<close>

definition result_list :: "py_error + dict \<Rightarrow> ustr \<Rightarrow> json list option" where
  "result_list r k =
     (case r of
        Inl e \<Rightarrow> None
      | Inr out \<Rightarrow> (case map_of out k of None \<Rightarrow> None | Some v \<Rightarrow> (case v of JList xs \<Rightarrow> Some xs | _ \<Rightarrow> None)))"

definition result_str :: "py_error + dict \<Rightarrow> ustr \<Rightarrow> ustr option" where
  "result_str r k =
     (case r of
        Inl e \<Rightarrow> None
      | Inr out \<Rightarrow> (case map_of out k of None \<Rightarrow> None | Some v \<Rightarrow> (case v of JStr s \<Rightarrow> Some s | _ \<Rightarrow> None)))"

text \<open>
  The limits of CPython 3.11 with its default settings (a recursion limit of 1000, 4300
  digits) where \<open>main\<close> of the pipeline, run as a script, calls \<open>llm_reasoning\<close>. The general
  statements below hold for all limits; the closed ones are evaluated at these.
\<close>

definition cpython_limits :: limits where
  "cpython_limits = \<lparr>recursion_headroom = 993, errmsg_frames = 3, int_max_str_digits = 4300\<rparr>"

text \<open>
  The data that \<open>normalizeSingle\<close> hands to the normalizer: what \<open>json.loads\<close> returned, or the
  fallback object when it raised \<open>JSONDecodeError\<close>; any other exception of \<open>json.loads\<close>
  escapes and no data reaches the normalizer. A response text is \<open>decodable\<close> when
  \<open>json.loads\<close> returns or raises \<open>JSONDecodeError\<close> on the sanitized text. Then the lists the
  normalizer coerces from the data before the backfill.
\<close>

definition response_data :: "limits \<Rightarrow> ustr \<Rightarrow> py_error + json" where
  "response_data lim raw =
     (case json_loads lim (strip_code_fences raw) of
        Inr d \<Rightarrow> Inr d
      | Inl e \<Rightarrow> if e = JSONDecodeError then Inr (fallback_single (strip_code_fences raw)) else Inl e)"


definition coerced_list :: "(json \<Rightarrow> ustr) \<Rightarrow> json \<Rightarrow> ustr \<Rightarrow> json list" where
  "coerced_list render data k =
     map JStr (ensure_list_of_str render (dict_get (as_dict data) k (JList [])))"

definition coerced_key_objects :: "(json \<Rightarrow> ustr) \<Rightarrow> json \<Rightarrow> json list" where
  "coerced_key_objects render data =
     map JStr (ensure_list_of_str render
       (dict_get (as_dict (dict_get (as_dict data) (U ''environment'') (JObj [])))
          (U ''key_objects'') (JList [])))"

text \<open>A response gives no list at all when none of the four list fields and no
  \<open>environment.key_objects\<close> holds a list: the keys are missing or wrongly typed.\<close>

definition provides_no_list :: "json \<Rightarrow> bool" where
  "provides_no_list data =
     (list_all (\<lambda>k. \<not> is_list (dict_get (as_dict data) k JNull)) list_keys
      \<and> \<not> is_list (dict_get (as_dict (dict_get (as_dict data) (U ''environment'') (JObj [])))
                     (U ''key_objects'') JNull))"

text \<open>A renderer for the closed statements whose inputs hold strings only, where \<open>str\<close> is
  never applied to anything but a string.\<close>

definition render_unused :: "json \<Rightarrow> ustr" where
  "render_unused x = []"

text \<open>Whether a decoded value is an object (a \<open>dict\<close>).\<close>

definition is_obj :: "json \<Rightarrow> bool" where
  "is_obj v = (case v of JObj d \<Rightarrow> True | _ \<Rightarrow> False)"

text \<open>
  What the backfill makes of a coerced list: \<open>backfilled\<close> for \<open>affordances\<close>, \<open>constraints\<close>
  and \<open>future_steps\<close>, \<open>target_backfilled\<close> for \<open>target_objects\<close>, given the coerced
  \<open>environment.key_objects\<close>.
\<close>

definition backfilled :: "nat \<Rightarrow> ustr list \<Rightarrow> json list \<Rightarrow> json list" where
  "backfilled minimum canned xs = (if length xs < minimum then xs @ map JStr canned else xs)"

definition target_backfilled :: "json list \<Rightarrow> json list \<Rightarrow> json list" where
  "target_backfilled key_objects xs =
     (if length xs < 2 then
        (if key_objects \<noteq> [] then take 4 (xs @ key_objects) else xs @ map JStr canned_target_objects)
      else xs)"

text \<open>The single-action object with given lists, its strings coerced from the data.\<close>

definition single_object :: "(json \<Rightarrow> ustr) \<Rightarrow> json \<Rightarrow> json list \<Rightarrow> json list \<Rightarrow> json list \<Rightarrow> json list \<Rightarrow> json list \<Rightarrow> dict" where
  "single_object render data0 key_objects affordances constraints future_steps target_objects =
       [(U ''intent'', JStr (ensure_str render (dict_get (as_dict data0) (U ''intent'') (JStr [])))),
        (U ''next_step'', JStr (ensure_str render (dict_get (as_dict data0) (U ''next_step'') (JStr [])))),
        (U ''explanation'', JStr (ensure_str render (dict_get (as_dict data0) (U ''explanation'') (JStr [])))),
        (U ''environment'',
           JObj [(U ''scene_type'', JStr (ensure_str render
                    (dict_get (as_dict (dict_get (as_dict data0) (U ''environment'') (JObj []))) (U ''scene_type'') (JStr [])))),
                 (U ''key_objects'', JList key_objects)]),
        (U ''agent_state'', JStr (ensure_str render (dict_get (as_dict data0) (U ''agent_state'') (JStr [])))),
        (U ''affordances'', JList affordances),
        (U ''constraints'', JList constraints),
        (U ''task_goal'', JStr (ensure_str render (dict_get (as_dict data0) (U ''task_goal'') (JStr [])))),
        (U ''current_step'', JStr (ensure_str render (dict_get (as_dict data0) (U ''current_step'') (JStr [])))),
        (U ''future_steps'', JList future_steps),
        (U ''target_objects'', JList target_objects)]"





text \<open>
  An example run: the folder of \<open>open_door\<close> holds ten pose files and a hidden file, the
  folder of \<open>pick_book\<close> holds no pose file, the other two folders are absent; the classifier
  predicts \<open>open_door\<close> for seven frames and \<open>walk_stop\<close> for three (a second classifier
  predicts \<open>walk_stop\<close> and \<open>pick_book\<close> for five frames each); the model answers every
  request with an empty JSON object (a second model answers with a thousand opening
  brackets).
\<close>

definition example_dir :: "int pose_dir" where
  "example_dir =
     [(U ''.DS_Store'', None), (U ''f3.json'', None), (U ''f0.json'', Some [[1, 2, 3]]),
      (U ''f1.json'', None), (U ''f2.json'', None), (U ''f4.json'', None), (U ''f5.json'', None),
      (U ''f6.json'', None), (U ''f7.json'', None), (U ''f8.json'', None), (U ''f9.json'', None)]"

definition example_store :: "ustr \<Rightarrow> int pose_dir option" where
  "example_store a =
     (if a = U ''open_door'' then Some example_dir
      else if a = U ''pick_book'' then Some [(U ''.DS_Store'', None), (U ''notes.txt'', None)]
      else None)"

definition example_predict :: "int list list \<Rightarrow> int list" where
  "example_predict X = take (length X) [0, 0, 3, 0, 0, 0, 3, 0, 3, 0]"

definition example_tie_predict :: "int list list \<Rightarrow> int list" where
  "example_tie_predict X = take (length X) [3, 1, 3, 1, 3, 1, 3, 1, 3, 1]"


definition example_deep_create :: "nat \<Rightarrow> request \<Rightarrow> py_error + ustr option" where
  "example_deep_create n req = Inr (Some (replicate 1000 91))"

section \<open>Properties of the FeatureEncoder\<close>

lemma detection_rows_length: "r \<in> set (detection_rows det) \<Longrightarrow> length r = 3"
  by (auto simp: detection_rows_def)

lemma concat_detection_rows_length: "length (concat (detection_rows det)) = 3 * length det"
  by (induction det) (auto simp: detection_rows_def)

lemma np_array_detection: "np_array f32 (detection_rows det) = Inr (flattened f32 det)"
proof -
  have "\<not> (\<exists>r \<in> set (detection_rows det). length r \<noteq> length (hd (detection_rows det)))"
  proof (cases det)
    case Nil
    then show ?thesis by (simp add: detection_rows_def)
  next
    case (Cons t ts)
    then have "length (hd (detection_rows det)) = 3"
      by (simp add: detection_rows_def split: prod.splits)
    then show ?thesis using detection_rows_length by metis
  qed
  then show ?thesis by (simp add: np_array_def flattened_def)
qed

lemma reshape3_flattened: "reshape3_flatten (flattened f32 det) = Inr (flattened f32 det)"
  by (simp add: reshape3_flatten_def flattened_def concat_detection_rows_length)

lemma keypoints_to_vector_detection:
  "keypoints_to_vector f32 (Some (detection_rows det)) dim =
     Inr (if dim \<le> length (flattened f32 det) then take dim (flattened f32 det)
          else flattened f32 det @ replicate (dim - length (flattened f32 det)) 0)"
  by (simp add: keypoints_to_vector_def np_array_detection reshape3_flattened)

text \<open>
  Claim C6. The encoder never raises on a detection or on the no-detection sentinel, and its
  result has length exactly \<open>dim\<close>, for every detection length and every \<open>dim\<close>: the sentinel
  gives \<open>dim\<close> zeros; a detection whose row-major flattening has at least \<open>dim\<close> values gives
  the first \<open>dim\<close> of them unchanged; a shorter one gives the flattened values followed by zeros.
\<close>

theorem keypoints_to_vector_total:
  fixes f32 :: "'r \<Rightarrow> 'f::zero"
  shows "keypoints_to_vector f32 None dim = Inr (replicate dim 0)
    \<and> (\<exists>v. keypoints_to_vector f32 (Some (detection_rows det)) dim = Inr v
          \<and> length v = dim
          \<and> v = (if dim \<le> length (flattened f32 det) then take dim (flattened f32 det)
                 else flattened f32 det @ replicate (dim - length (flattened f32 det)) 0))"
  by (simp add: keypoints_to_vector_detection) (simp add: keypoints_to_vector_def)

theorem keypoints_to_vector_total_witness:
  "keypoints_to_vector (\<lambda>x::int. x) None 2 = Inr [0, 0]
    \<and> keypoints_to_vector (\<lambda>x::int. x) (Some (detection_rows [(1, 2, 3), (4, 5, 6)])) 4 = Inr [1, 2, 3, 4]
    \<and> keypoints_to_vector (\<lambda>x::int. x) (Some (detection_rows [(1, 2, 3)])) 5 = Inr [1, 2, 3, 0, 0]"
  using keypoints_to_vector_total [of "\<lambda>x::int. x" 2 "[(1, 2, 3)]"]
    keypoints_to_vector_total [of "\<lambda>x::int. x" 4 "[(1, 2, 3), (4, 5, 6)]"]
    keypoints_to_vector_total [of "\<lambda>x::int. x" 5 "[(1, 2, 3)]"]
  by (simp add: flattened_def detection_rows_def numeral_eq_Suc)

text \<open>Rows that are not triples are outside the detection type: there \<open>np.array\<close> or
  \<open>reshape\<close> raises.\<close>

lemma keypoints_to_vector_not_triples:
  "keypoints_to_vector (\<lambda>x::int. x) (Some [[1, 2, 3], [4, 5]]) 51 = Inl ValueError"
  "keypoints_to_vector (\<lambda>x::int. x) (Some [[1, 2], [4, 5]]) 51 = Inl ValueError"
  by (simp_all add: keypoints_to_vector_def np_array_def reshape3_flatten_def)

section \<open>Properties of the ResponseNormalizer\<close>

subsection \<open>The normalizer in closed form\<close>

lemma backfill_update:
  "map_of out k = Some (JList xs) \<Longrightarrow>
   backfill k minimum canned cap out =
     Inr (AList.update k (JList (if length xs < minimum then take cap (xs @ map JStr canned) else xs)) out)"
  by (simp add: backfill_def getlist_def py_bind_def update_triv)

lemma backfill_target_objects_update:
  "map_of out (U ''target_objects'') = Some (JList xs) \<Longrightarrow>
   map_of out (U ''environment'') = Some (JObj env) \<Longrightarrow>
   map_of env (U ''key_objects'') = Some (JList candidates) \<Longrightarrow>
   backfill_target_objects out =
     Inr (AList.update (U ''target_objects'')
            (JList (if length xs < 2 then
                      (if candidates \<noteq> [] then take 4 (xs @ candidates)
                       else take 4 (xs @ map JStr canned_target_objects))
                    else xs)) out)"
  by (simp add: backfill_target_objects_def getlist_def getdict_def py_bind_def update_triv)

lemma normalize_single_closed:
  "normalize_single_action_json render data0 =
     (let data = as_dict data0;
          env = as_dict (dict_get data (U ''environment'') (JObj []));
          key_objects = map JStr (ensure_list_of_str render (dict_get env (U ''key_objects'') (JList [])));
          affordances = map JStr (ensure_list_of_str render (dict_get data (U ''affordances'') (JList [])));
          constraints = map JStr (ensure_list_of_str render (dict_get data (U ''constraints'') (JList [])));
          future_steps = map JStr (ensure_list_of_str render (dict_get data (U ''future_steps'') (JList [])));
          target_objects = map JStr (ensure_list_of_str render (dict_get data (U ''target_objects'') (JList [])))
      in Inr (single_object render data0 key_objects
           (if length affordances < 3 then take 5 (affordances @ map JStr canned_affordances)
                  else affordances)
           (if length constraints < 2 then take 4 (constraints @ map JStr canned_constraints)
                  else constraints)
           (if length future_steps < 2 then take 4 (future_steps @ map JStr canned_future_steps)
                  else future_steps)
           (if length target_objects < 2 then
                    (if key_objects \<noteq> [] then take 4 (target_objects @ key_objects)
                     else take 4 (target_objects @ map JStr canned_target_objects))
                  else target_objects)))"
  unfolding normalize_single_action_json_def Let_def single_object_def
  by (simp add: string_keys_def skeleton_single_def py_bind_def getitem_def getdict_def
      set_environment_def backfill_update backfill_target_objects_update str_list_def
      split del: if_split cong: if_cong)

lemma is_str_list_JStr: "list_all is_str (map JStr xs)"
  by (induction xs) (simp_all add: is_str_def)

lemma list_all_take: "list_all P xs \<Longrightarrow> list_all P (take n xs)"
  by (auto simp: list_all_iff dest: in_set_takeD)

lemma single_object_schema:
  "list_all is_str ko \<Longrightarrow> list_all is_str a \<Longrightarrow> list_all is_str c \<Longrightarrow> list_all is_str f \<Longrightarrow>
   list_all is_str t \<Longrightarrow> has_single_schema (single_object render data0 ko a c f t)"
  by (simp add: has_single_schema_def single_object_def skeleton_single_def string_keys_def
      list_keys_def has_type_def is_str_def is_str_list_def)

lemma single_object_lists:
  "result_list (Inr (single_object render data0 ko a c f t)) (U ''affordances'') = Some a"
  "result_list (Inr (single_object render data0 ko a c f t)) (U ''constraints'') = Some c"
  "result_list (Inr (single_object render data0 ko a c f t)) (U ''future_steps'') = Some f"
  "result_list (Inr (single_object render data0 ko a c f t)) (U ''target_objects'') = Some t"
  by (simp_all add: result_list_def single_object_def)

lemma single_object_strs:
  "result_str (Inr (single_object render data0 ko a c f t)) (U ''intent'') =
     Some (ensure_str render (dict_get (as_dict data0) (U ''intent'') (JStr [])))"
  "result_str (Inr (single_object render data0 ko a c f t)) (U ''next_step'') =
     Some (ensure_str render (dict_get (as_dict data0) (U ''next_step'') (JStr [])))"
  "result_str (Inr (single_object render data0 ko a c f t)) (U ''explanation'') =
     Some (ensure_str render (dict_get (as_dict data0) (U ''explanation'') (JStr [])))"
  "result_str (Inr (single_object render data0 ko a c f t)) (U ''agent_state'') =
     Some (ensure_str render (dict_get (as_dict data0) (U ''agent_state'') (JStr [])))"
  "result_str (Inr (single_object render data0 ko a c f t)) (U ''task_goal'') =
     Some (ensure_str render (dict_get (as_dict data0) (U ''task_goal'') (JStr [])))"
  "result_str (Inr (single_object render data0 ko a c f t)) (U ''current_step'') =
     Some (ensure_str render (dict_get (as_dict data0) (U ''current_step'') (JStr [])))"
  by (simp_all add: result_str_def single_object_def)

lemma canned_lengths:
  "length canned_affordances = 3" "length canned_constraints = 2"
  "length canned_future_steps = 2" "length canned_target_objects = 2"
  by (simp_all add: canned_affordances_def canned_constraints_def canned_future_steps_def
      canned_target_objects_def)

lemma take_backfilled:
  "length canned + minimum \<le> cap + 1 \<Longrightarrow>
   (if length xs < minimum then take cap (xs @ map JStr canned) else xs) = backfilled minimum canned xs"
  by (simp add: backfilled_def)

lemma take_target_backfilled:
  "(if length xs < 2 then
      (if ko \<noteq> [] then take 4 (xs @ ko) else take 4 (xs @ map JStr canned_target_objects))
    else xs) = target_backfilled ko xs"
  by (simp add: target_backfilled_def canned_lengths)

text \<open>The normalizer returns for every data it is given.\<close>

lemma normalize_single_object:
  "normalize_single_action_json render data =
     Inr (single_object render data (coerced_key_objects render data)
            (backfilled 3 canned_affordances (coerced_list render data (U ''affordances'')))
            (backfilled 2 canned_constraints (coerced_list render data (U ''constraints'')))
            (backfilled 2 canned_future_steps (coerced_list render data (U ''future_steps'')))
            (target_backfilled (coerced_key_objects render data)
               (coerced_list render data (U ''target_objects''))))"
  unfolding normalize_single_closed Let_def
  by (simp only: take_backfilled canned_lengths take_target_backfilled coerced_list_def
      coerced_key_objects_def)

subsection \<open>What escapes from \<open>json.loads\<close>\<close>

lemma normalizeSingle_response:
  "normalizeSingle lim render raw =
     py_bind (response_data lim raw) (normalize_single_action_json render)"
  by (simp add: normalizeSingle_def response_data_def py_bind_def Let_def split: sum.splits)


lemma response_data_cases:
  "response_data lim raw = Inr data \<longleftrightarrow>
     json_loads lim (strip_code_fences raw) = Inr data
     \<or> (json_loads lim (strip_code_fences raw) = Inl JSONDecodeError
        \<and> data = fallback_single (strip_code_fences raw))"
  by (auto simp: response_data_def split: sum.splits)

text \<open>
  An exception of \<open>json.loads\<close> other than \<open>JSONDecodeError\<close> is raised by \<open>normalizeSingle\<close>
  and by \<open>normalizeTemporal\<close>, and by \<open>llm_reasoning\<close> when it is the answer of the model that
  makes \<open>json.loads\<close> raise it.
\<close>

lemma normalizeSingle_raises:
  assumes "json_loads lim (strip_code_fences raw) = Inl e" and "e \<noteq> JSONDecodeError"
  shows "normalizeSingle lim render raw = Inl e"
  using assms by (simp add: normalizeSingle_def)

lemma normalizeTemporal_raises:
  assumes "json_loads lim (strip_code_fences raw) = Inl e" and "e \<noteq> JSONDecodeError"
  shows "normalizeTemporal lim render raw = Inl e"
  using assms by (simp add: normalizeTemporal_def)

lemma llm_reasoning_raises:
  assumes "create (SingleRequest label) = Inr content"
    and "json_loads lim (strip_code_fences (content_or_empty content)) = Inl e"
    and "e \<noteq> JSONDecodeError"
  shows "llm_reasoning lim render create label = Inl e"
  using assms by (simp add: llm_reasoning_def py_bind_def normalizeSingle_raises)

text \<open>
  Two families of texts on which \<open>json.loads\<close> raises such an exception: more opening brackets
  than the recursion limit allows, and an integer literal of more digits than \<open>int\<close> converts.
  The sanitizer leaves both texts as they are.
\<close>

lemma parse_value_too_deep:
  "0 < n \<Longrightarrow> recursion_headroom lim < length stack + n \<Longrightarrow>
   parse_value lim stack (replicate n 91 @ rest) = Inl RecursionError"
proof (induction n arbitrary: stack)
  case 0
  then show ?case by simp
next
  case (Suc m)
  show ?case
  proof (cases "recursion_headroom lim \<le> length stack")
    case True
    then show ?thesis by simp
  next
    case False
    with Suc.prems have m: "0 < m" and deep: "recursion_headroom lim < length (InArray [] # stack) + m"
      by simp_all
    from m obtain k where k: "m = Suc k"
      by (cases m) simp_all
    have "skip_ws (replicate m 91 @ rest) = 91 # (replicate k 91 @ rest)"
      by (simp add: k skip_ws_def is_ws_def)
    then have "parse_value lim stack (replicate (Suc m) 91 @ rest) =
        parse_value lim (InArray [] # stack) (replicate m 91 @ rest)"
      using False by (simp add: k)
    also have "\<dots> = Inl RecursionError"
      using m deep by (rule Suc.IH)
    finally show ?thesis .
  qed
qed

lemma json_loads_too_deep:
  assumes "recursion_headroom lim < n"
  shows "json_loads lim (replicate n 91) = Inl RecursionError"
proof -
  from assms obtain k where k: "n = Suc k"
    by (cases n) simp_all
  have "parse_value lim [] (replicate n 91 @ []) = Inl RecursionError"
    using assms by (intro parse_value_too_deep) simp_all
  then show ?thesis
    by (simp add: json_loads_def startswith_def skip_ws_def is_ws_def k)
qed

lemma json_loads_long_integer:
  assumes "0 < int_max_str_digits lim" and "int_max_str_digits lim < n"
  shows "json_loads lim (replicate n 49) = Inl ValueError"
proof -
  from assms obtain k where k: "n = Suc k"
    by (cases n) simp_all
  have "match_integer (49 # replicate k 49) = Some (replicate n 49, [])"
    by (simp add: match_integer_def is_digit_def k)
  then have "match_number lim (49 # replicate k 49) = Inl ValueError"
    using assms by (simp add: match_number_def match_fraction_def match_exponent_def)
  then have "scan_atom lim 0 (49 # replicate k 49) = Inl ValueError"
    by (simp add: scan_atom_def)
  then show ?thesis
    by (simp add: json_loads_def startswith_def skip_ws_def is_ws_def k)
qed

lemma strip_code_fences_replicate:
  assumes "\<not> isspace c" and "c \<noteq> 96"
  shows "strip_code_fences (replicate n c) = replicate n c"
proof -
  have "strip (replicate n c) = replicate n c"
    by (simp add: strip_def strip_chars_def assms)
  moreover have "\<not> startswith (replicate n c) [96, 96, 96]"
    by (cases n) (simp_all add: startswith_def assms)
  ultimately show ?thesis
    by (simp add: strip_code_fences_def)
qed

lemma normalizeSingle_limits:
  "normalizeSingle cpython_limits render (replicate 1000 91) = Inl RecursionError"
  "normalizeSingle cpython_limits render (replicate 4301 49) = Inl ValueError"
  "normalizeTemporal cpython_limits render (replicate 1000 91) = Inl RecursionError"
  "normalizeTemporal cpython_limits render (replicate 4301 49) = Inl ValueError"
proof -
  have s: "strip_code_fences (replicate 1000 91) = replicate 1000 91"
    "strip_code_fences (replicate 4301 49) = replicate 4301 49"
    by (rule strip_code_fences_replicate; simp add: isspace_def)+
  have deep: "json_loads cpython_limits (strip_code_fences (replicate 1000 91)) = Inl RecursionError"
    unfolding s by (rule json_loads_too_deep) (simp add: cpython_limits_def)
  have long: "json_loads cpython_limits (strip_code_fences (replicate 4301 49)) = Inl ValueError"
    unfolding s by (rule json_loads_long_integer) (simp_all add: cpython_limits_def)
  show "normalizeSingle cpython_limits render (replicate 1000 91) = Inl RecursionError"
    using deep by (rule normalizeSingle_raises) simp
  show "normalizeSingle cpython_limits render (replicate 4301 49) = Inl ValueError"
    using long by (rule normalizeSingle_raises) simp
  show "normalizeTemporal cpython_limits render (replicate 1000 91) = Inl RecursionError"
    using deep by (rule normalizeTemporal_raises) simp
  show "normalizeTemporal cpython_limits render (replicate 4301 49) = Inl ValueError"
    using long by (rule normalizeTemporal_raises) simp
qed

subsection \<open>The object returned for a decodable response\<close>

lemma normalizeSingle_object:
  assumes "response_data lim raw = Inr data"
  shows "normalizeSingle lim render raw =
     Inr (single_object render data (coerced_key_objects render data)
            (backfilled 3 canned_affordances (coerced_list render data (U ''affordances'')))
            (backfilled 2 canned_constraints (coerced_list render data (U ''constraints'')))
            (backfilled 2 canned_future_steps (coerced_list render data (U ''future_steps'')))
            (target_backfilled (coerced_key_objects render data)
               (coerced_list render data (U ''target_objects''))))"
proof -
  have "normalizeSingle lim render raw = normalize_single_action_json render data"
    using assms by (simp add: normalizeSingle_response py_bind_def)
  then show ?thesis
    by (simp only: normalize_single_object)
qed

lemma no_list_coerced:
  "\<not> is_list (dict_get d k JNull) \<Longrightarrow> ensure_list_of_str render (dict_get d k (JList [])) = []"
  by (auto simp: dict_get_def is_list_def ensure_list_of_str_def split: option.splits json.splits)

lemma provides_no_list_coerced:
  assumes "provides_no_list data"
  shows "coerced_list render data (U ''affordances'') = []"
    and "coerced_list render data (U ''constraints'') = []"
    and "coerced_list render data (U ''future_steps'') = []"
    and "coerced_list render data (U ''target_objects'') = []"
    and "coerced_key_objects render data = []"
  using assms
  by (simp_all add: provides_no_list_def list_keys_def coerced_list_def coerced_key_objects_def
      no_list_coerced)

lemma fallback_coerced:
  shows "coerced_list render (fallback_single content) (U ''affordances'') = []"
    and "coerced_list render (fallback_single content) (U ''constraints'') = []"
    and "coerced_list render (fallback_single content) (U ''future_steps'') = []"
    and "coerced_list render (fallback_single content) (U ''target_objects'') = []"
    and "coerced_key_objects render (fallback_single content) = []"
  by (simp_all add: fallback_single_def coerced_list_def coerced_key_objects_def
      as_dict_def dict_get_def ensure_list_of_str_def)

lemma response_data_fallback:
  "response_data lim raw = Inr data \<Longrightarrow> json_loads lim (strip_code_fences raw) = Inl JSONDecodeError \<Longrightarrow>
   data = fallback_single (strip_code_fences raw)"
  by (simp add: response_data_def)

lemma response_data_decoded:
  "response_data lim raw = Inr data \<Longrightarrow> json_loads lim (strip_code_fences raw) = Inr v \<Longrightarrow> data = v"
  by (simp add: response_data_def)

lemma coerced_strs: "list_all is_str (coerced_list render data k)"
  "list_all is_str (coerced_key_objects render data)"
  by (simp_all add: coerced_list_def coerced_key_objects_def is_str_list_JStr)

lemma backfilled_strs: "list_all is_str xs \<Longrightarrow> list_all is_str (backfilled m canned xs)"
  by (simp add: backfilled_def is_str_list_JStr)

lemma target_backfilled_strs:
  "list_all is_str xs \<Longrightarrow> list_all is_str ko \<Longrightarrow> list_all is_str (target_backfilled ko xs)"
  by (simp add: target_backfilled_def is_str_list_JStr list_all_take)

text \<open>
  Claim C1, as amended. For every response text on which \<open>json.loads\<close> returns or raises
  \<open>JSONDecodeError\<close> (\<open>data\<close> being what it returned, or the fallback object), \<open>normalizeSingle\<close>
  raises nothing and returns an object with exactly the eleven required keys and their
  declared types. On the empty string, on every text for which \<open>json.loads\<close> raises
  \<open>JSONDecodeError\<close> (truncated JSON among them), on valid JSON with none of the keys and on
  valid JSON that gives no list under the four list fields and under
  \<open>environment.key_objects\<close>, the four list fields hold exactly the canned entries: 3, 2, 2
  and 2 of them.
\<close>

theorem normalizeSingle_total:
  assumes "response_data lim raw = Inr data"
  shows "(\<exists>out. normalizeSingle lim render raw = Inr out \<and> has_single_schema out)
   \<and> (json_loads lim (strip_code_fences raw) = Inl JSONDecodeError \<or> provides_no_list data \<longrightarrow>
        result_list (normalizeSingle lim render raw) (U ''affordances'') = Some (map JStr canned_affordances)
        \<and> result_list (normalizeSingle lim render raw) (U ''constraints'') = Some (map JStr canned_constraints)
        \<and> result_list (normalizeSingle lim render raw) (U ''future_steps'') = Some (map JStr canned_future_steps)
        \<and> result_list (normalizeSingle lim render raw) (U ''target_objects'') = Some (map JStr canned_target_objects))"
proof (intro conjI impI)
  show "\<exists>out. normalizeSingle lim render raw = Inr out \<and> has_single_schema out"
    unfolding normalizeSingle_object [OF assms]
    by (rule exI, rule conjI, rule refl)
      (intro single_object_schema coerced_strs backfilled_strs target_backfilled_strs)
next
  assume a: "json_loads lim (strip_code_fences raw) = Inl JSONDecodeError \<or> provides_no_list data"
  then have e: "coerced_list render data (U ''affordances'') = []"
    "coerced_list render data (U ''constraints'') = []"
    "coerced_list render data (U ''future_steps'') = []"
    "coerced_list render data (U ''target_objects'') = []"
    "coerced_key_objects render data = []"
    using fallback_coerced [of render "strip_code_fences raw"] provides_no_list_coerced [of data render]
      response_data_fallback [OF assms]
    by blast+
  show "result_list (normalizeSingle lim render raw) (U ''affordances'') = Some (map JStr canned_affordances)"
    unfolding normalizeSingle_object [OF assms] single_object_lists e by (simp add: backfilled_def)
  show "result_list (normalizeSingle lim render raw) (U ''constraints'') = Some (map JStr canned_constraints)"
    unfolding normalizeSingle_object [OF assms] single_object_lists e by (simp add: backfilled_def)
  show "result_list (normalizeSingle lim render raw) (U ''future_steps'') = Some (map JStr canned_future_steps)"
    unfolding normalizeSingle_object [OF assms] single_object_lists e by (simp add: backfilled_def)
  show "result_list (normalizeSingle lim render raw) (U ''target_objects'') = Some (map JStr canned_target_objects)"
    unfolding normalizeSingle_object [OF assms] single_object_lists e by (simp add: target_backfilled_def)
qed

text \<open>
  Claim C2, as amended. For a response text on which \<open>json.loads\<close> returns or raises
  \<open>JSONDecodeError\<close>: when the coerced \<open>target_objects\<close> has fewer than 2 entries, the result
  is the coerced list followed by \<open>environment.key_objects\<close>, cut to at most 4 entries, when
  \<open>key_objects\<close> is not empty, and the coerced list followed by the two canned placeholders
  when it is empty. It has between 1 and 4 entries, and fewer than 2 exactly when the coerced
  list is empty and \<open>key_objects\<close> has a single entry.
\<close>

theorem target_objects_backfill:
  assumes "response_data lim raw = Inr data"
    and "length (coerced_list render data (U ''target_objects'')) < 2"
  shows "\<exists>xs. result_list (normalizeSingle lim render raw) (U ''target_objects'') = Some xs
    \<and> xs = (if coerced_key_objects render data \<noteq> []
             then take 4 (coerced_list render data (U ''target_objects'') @ coerced_key_objects render data)
             else coerced_list render data (U ''target_objects'') @ map JStr canned_target_objects)
    \<and> 1 \<le> length xs \<and> length xs \<le> 4
    \<and> (length xs < 2 \<longleftrightarrow>
         coerced_list render data (U ''target_objects'') = [] \<and> length (coerced_key_objects render data) = 1)"
  using assms(2) unfolding normalizeSingle_object [OF assms(1)] single_object_lists
  by (cases "coerced_key_objects render data"; cases "coerced_list render data (U ''target_objects'')")
     (auto simp: target_backfilled_def canned_lengths min_def split: if_splits)

text \<open>
  Claim C4, as amended. For every response text on which \<open>json.loads\<close> returns or raises
  \<open>JSONDecodeError\<close>, each of the four lists is the coerced list, backfilled when it has fewer
  entries than its minimum. So \<open>affordances\<close> has at least 3 entries, \<open>constraints\<close> and
  \<open>future_steps\<close> at least 2 and \<open>target_objects\<close> at least 1, and at least 2 unless the
  coerced list is empty and \<open>key_objects\<close> has a single entry; a list that was backfilled has
  at most 5, 4, 4 and 4 entries; a coerced list that already has its minimum is returned
  unchanged, whatever its length.
\<close>

theorem list_cardinalities:
  assumes "response_data lim raw = Inr data"
  shows "\<exists>a c f t.
     result_list (normalizeSingle lim render raw) (U ''affordances'') = Some a
     \<and> result_list (normalizeSingle lim render raw) (U ''constraints'') = Some c
     \<and> result_list (normalizeSingle lim render raw) (U ''future_steps'') = Some f
     \<and> result_list (normalizeSingle lim render raw) (U ''target_objects'') = Some t
     \<and> a = backfilled 3 canned_affordances (coerced_list render data (U ''affordances''))
     \<and> c = backfilled 2 canned_constraints (coerced_list render data (U ''constraints''))
     \<and> f = backfilled 2 canned_future_steps (coerced_list render data (U ''future_steps''))
     \<and> t = target_backfilled (coerced_key_objects render data) (coerced_list render data (U ''target_objects''))
     \<and> 3 \<le> length a \<and> 2 \<le> length c \<and> 2 \<le> length f \<and> 1 \<le> length t
     \<and> (length t < 2 \<longleftrightarrow>
          coerced_list render data (U ''target_objects'') = [] \<and> length (coerced_key_objects render data) = 1)
     \<and> (length (coerced_list render data (U ''affordances'')) < 3 \<longrightarrow> length a \<le> 5)
     \<and> (length (coerced_list render data (U ''constraints'')) < 2 \<longrightarrow> length c \<le> 4)
     \<and> (length (coerced_list render data (U ''future_steps'')) < 2 \<longrightarrow> length f \<le> 4)
     \<and> (length (coerced_list render data (U ''target_objects'')) < 2 \<longrightarrow> length t \<le> 4)
     \<and> (3 \<le> length (coerced_list render data (U ''affordances'')) \<longrightarrow> a = coerced_list render data (U ''affordances''))
     \<and> (2 \<le> length (coerced_list render data (U ''constraints'')) \<longrightarrow> c = coerced_list render data (U ''constraints''))
     \<and> (2 \<le> length (coerced_list render data (U ''future_steps'')) \<longrightarrow> f = coerced_list render data (U ''future_steps''))
     \<and> (2 \<le> length (coerced_list render data (U ''target_objects'')) \<longrightarrow> t = coerced_list render data (U ''target_objects''))"
  unfolding normalizeSingle_object [OF assms] single_object_lists
  by (cases "coerced_key_objects render data"; cases "coerced_list render data (U ''target_objects'')")
     (auto simp: backfilled_def target_backfilled_def canned_lengths min_def split: if_splits)

text \<open>
  Claim C5, as amended. When \<open>json.loads\<close> raises \<open>JSONDecodeError\<close> on the sanitized text,
  \<open>normalizeSingle\<close> returns an object whose \<open>explanation\<close> is the sanitized text and whose
  other strings are empty. When \<open>json.loads\<close> returns a value that is not an object,
  \<open>explanation\<close> is empty.
\<close>

theorem parse_failure_kept_in_explanation:
  "(json_loads lim (strip_code_fences raw) = Inl JSONDecodeError \<longrightarrow>
      result_str (normalizeSingle lim render raw) (U ''explanation'') = Some (strip_code_fences raw)
      \<and> result_str (normalizeSingle lim render raw) (U ''intent'') = Some []
      \<and> result_str (normalizeSingle lim render raw) (U ''next_step'') = Some []
      \<and> result_str (normalizeSingle lim render raw) (U ''agent_state'') = Some []
      \<and> result_str (normalizeSingle lim render raw) (U ''task_goal'') = Some []
      \<and> result_str (normalizeSingle lim render raw) (U ''current_step'') = Some [])
   \<and> (\<forall>v. json_loads lim (strip_code_fences raw) = Inr v \<and> \<not> is_obj v \<longrightarrow>
        result_str (normalizeSingle lim render raw) (U ''explanation'') = Some [])"
proof (intro conjI impI allI)
  assume a: "json_loads lim (strip_code_fences raw) = Inl JSONDecodeError"
  then have d: "response_data lim raw = Inr (fallback_single (strip_code_fences raw))"
    by (simp add: response_data_def)
  show "result_str (normalizeSingle lim render raw) (U ''explanation'') = Some (strip_code_fences raw)"
    unfolding normalizeSingle_object [OF d] single_object_strs
    by (simp add: fallback_single_def as_dict_def dict_get_def ensure_str_def py_str_def)
  show "result_str (normalizeSingle lim render raw) (U ''intent'') = Some []"
    unfolding normalizeSingle_object [OF d] single_object_strs
    by (simp add: fallback_single_def as_dict_def dict_get_def ensure_str_def py_str_def)
  show "result_str (normalizeSingle lim render raw) (U ''next_step'') = Some []"
    unfolding normalizeSingle_object [OF d] single_object_strs
    by (simp add: fallback_single_def as_dict_def dict_get_def ensure_str_def py_str_def)
  show "result_str (normalizeSingle lim render raw) (U ''agent_state'') = Some []"
    unfolding normalizeSingle_object [OF d] single_object_strs
    by (simp add: fallback_single_def as_dict_def dict_get_def ensure_str_def py_str_def)
  show "result_str (normalizeSingle lim render raw) (U ''task_goal'') = Some []"
    unfolding normalizeSingle_object [OF d] single_object_strs
    by (simp add: fallback_single_def as_dict_def dict_get_def ensure_str_def py_str_def)
  show "result_str (normalizeSingle lim render raw) (U ''current_step'') = Some []"
    unfolding normalizeSingle_object [OF d] single_object_strs
    by (simp add: fallback_single_def as_dict_def dict_get_def ensure_str_def py_str_def)
next
  fix v
  assume a: "json_loads lim (strip_code_fences raw) = Inr v \<and> \<not> is_obj v"
  then have d: "response_data lim raw = Inr v"
    by (simp add: response_data_def)
  from a have "as_dict v = []"
    by (auto simp: as_dict_def is_obj_def split: json.splits)
  then show "result_str (normalizeSingle lim render raw) (U ''explanation'') = Some []"
    unfolding normalizeSingle_object [OF d] single_object_strs
    by (simp add: dict_get_def ensure_str_def py_str_def)
qed

subsection \<open>Evaluation on concrete responses\<close>

lemmas json_eval = json_loads_def startswith_def skip_ws_def is_ws_def scan_atom_def scan_key_def
  match_number_def match_integer_def match_fraction_def match_exponent_def is_digit_def
  digits_value_def decode_uXXXX_def hex_value_def low_surrogate_escape_def backslash_escape_def
  raise_errmsg_def cpython_limits_def

lemmas fence_eval = strip_code_fences_def strip_def strip_chars_def isspace_def
  lower_startswith_json_def startswith_def

text \<open>The decoder on sample texts: a duplicate key, floats and constants, truncated text,
  a trailing comma, extra data, a leading zero; and, with small limits, nesting that is too
  deep, an error reported too close to the limit, an integer that is too long.\<close>

lemma json_loads_samples:
  \<open>json_loads cpython_limits (U ''{"a": [1, -2, true, null], "a": "x"}'') = Inr (JObj [(U ''a'', JStr (U ''x''))])\<close>
  \<open>json_loads cpython_limits (U '' [0.5, 1E+2, NaN] '') =
     Inr (JList [JFloat (U ''0.5''), JFloat (U ''1E+2''), JFloat (U ''NaN'')])\<close>
  \<open>json_loads cpython_limits (U ''{"intent": "open the door"'') = Inl JSONDecodeError\<close>
  \<open>json_loads cpython_limits (U ''[1,]'') = Inl JSONDecodeError\<close>
  \<open>json_loads cpython_limits (U ''{"a": 1} trailing'') = Inl JSONDecodeError\<close>
  \<open>json_loads cpython_limits (U ''01'') = Inl JSONDecodeError\<close>
  by (simp_all add: json_eval)

lemma json_loads_small_limits:
  \<open>json_loads \<lparr>recursion_headroom = 4, errmsg_frames = 3, int_max_str_digits = 5\<rparr> (U ''[[[[1]]]]'')
     = Inr (JList [JList [JList [JList [JInt 1]]]])\<close>
  \<open>json_loads \<lparr>recursion_headroom = 4, errmsg_frames = 3, int_max_str_digits = 5\<rparr> (U ''[[[[[1]]]]]'')
     = Inl RecursionError\<close>
  \<open>json_loads \<lparr>recursion_headroom = 4, errmsg_frames = 3, int_max_str_digits = 5\<rparr> (U ''[1 2]'')
     = Inl JSONDecodeError\<close>
  \<open>json_loads \<lparr>recursion_headroom = 4, errmsg_frames = 3, int_max_str_digits = 5\<rparr> (U ''[[1 2]]'')
     = Inl RecursionError\<close>
  \<open>json_loads \<lparr>recursion_headroom = 4, errmsg_frames = 3, int_max_str_digits = 5\<rparr> (U ''[[[[x'')
     = Inl JSONDecodeError\<close>
  \<open>json_loads \<lparr>recursion_headroom = 4, errmsg_frames = 3, int_max_str_digits = 5\<rparr> (U ''[12345, 1234567]'')
     = Inl ValueError\<close>
  \<open>json_loads \<lparr>recursion_headroom = 4, errmsg_frames = 3, int_max_str_digits = 5\<rparr> (U ''[12345, 123456.7]'')
     = Inr (JList [JInt 12345, JFloat (U ''123456.7'')])\<close>
  by (simp_all add: json_eval)

theorem normalizeSingle_total_witness:
  \<open>result_list (normalizeSingle cpython_limits render_unused []) (U ''target_objects'')
     = Some (map JStr canned_target_objects)
   \<and> result_list (normalizeSingle cpython_limits render_unused
         (U ''{"intent": "open the door", "affordances": ["push"''))
         (U ''affordances'') = Some (map JStr canned_affordances)
   \<and> result_list (normalizeSingle cpython_limits render_unused (U ''{}'')) (U ''constraints'')
     = Some (map JStr canned_constraints)
   \<and> result_list (normalizeSingle cpython_limits render_unused
         (U ''{"affordances": "push", "constraints": 7, "future_steps": true, "target_objects": {"a": []}, "environment": [1]}''))
         (U ''future_steps'') = Some (map JStr canned_future_steps)\<close>
proof -
  have h1: "json_loads cpython_limits (strip_code_fences []) = Inl JSONDecodeError"
    by (simp add: fence_eval json_eval)
  have d1: "response_data cpython_limits [] = Inr (fallback_single (strip_code_fences []))"
    unfolding response_data_def h1 by simp
  have h2: \<open>json_loads cpython_limits
      (strip_code_fences (U ''{"intent": "open the door", "affordances": ["push"'')) = Inl JSONDecodeError\<close>
    by (simp add: fence_eval json_eval)
  have d2: \<open>response_data cpython_limits (U ''{"intent": "open the door", "affordances": ["push"'') =
      Inr (fallback_single (strip_code_fences (U ''{"intent": "open the door", "affordances": ["push"'')))\<close>
    unfolding response_data_def h2 by simp
  have d3: \<open>response_data cpython_limits (U ''{}'') = Inr (JObj [])\<close>
    by (simp add: response_data_def fence_eval json_eval)
  have h3: \<open>provides_no_list (JObj [])\<close>
    by (simp add: provides_no_list_def list_keys_def as_dict_def dict_get_def is_list_def)
  have d4: \<open>response_data cpython_limits
      (U ''{"affordances": "push", "constraints": 7, "future_steps": true, "target_objects": {"a": []}, "environment": [1]}'')
      = Inr (JObj [(U ''affordances'', JStr (U ''push'')), (U ''constraints'', JInt 7),
                   (U ''future_steps'', JBool True), (U ''target_objects'', JObj [(U ''a'', JList [])]),
                   (U ''environment'', JList [JInt 1])])\<close>
    by (simp add: response_data_def fence_eval json_eval)
  have h4: \<open>provides_no_list
      (JObj [(U ''affordances'', JStr (U ''push'')), (U ''constraints'', JInt 7),
             (U ''future_steps'', JBool True), (U ''target_objects'', JObj [(U ''a'', JList [])]),
             (U ''environment'', JList [JInt 1])])\<close>
    by (simp add: provides_no_list_def list_keys_def as_dict_def dict_get_def is_list_def)
  show ?thesis
    using normalizeSingle_total [OF d1, of render_unused] h1
      normalizeSingle_total [OF d2, of render_unused] h2
      normalizeSingle_total [OF d3, of render_unused] h3
      normalizeSingle_total [OF d4, of render_unused] h4
    by blast
qed

text \<open>
  The claim as stated fails on valid JSON with a wrong type: \<open>target_objects\<close> given as a
  string and one entry in \<open>environment.key_objects\<close> give a \<open>target_objects\<close> of one entry.
\<close>

theorem normalizeSingle_wrong_type_counterexample:
  \<open>result_list (normalizeSingle cpython_limits render_unused
       (U ''{"target_objects": "cup", "environment": {"key_objects": ["cup"]}}''))
     (U ''target_objects'') = Some [JStr (U ''cup'')]\<close>
proof -
  have rd: \<open>response_data cpython_limits (U ''{"target_objects": "cup", "environment": {"key_objects": ["cup"]}}'') =
      Inr (JObj [(U ''target_objects'', JStr (U ''cup'')),
            (U ''environment'', JObj [(U ''key_objects'', JList [JStr (U ''cup'')])])])\<close>
    by (simp add: response_data_def fence_eval json_eval)
  show ?thesis
    unfolding normalizeSingle_object [OF rd] single_object_lists coerced_list_def coerced_key_objects_def
    by (simp add: as_dict_def dict_get_def ensure_list_of_str_def py_str_def target_backfilled_def)
qed

theorem target_objects_backfill_witness:
  \<open>result_list (normalizeSingle cpython_limits render_unused
       (U ''{"target_objects": ["mug"], "environment": {"key_objects": ["kettle", "cup", "sink", "tap"]}}''))
     (U ''target_objects'') = Some [JStr (U ''mug''), JStr (U ''kettle''), JStr (U ''cup''), JStr (U ''sink'')]
   \<and> result_list (normalizeSingle cpython_limits render_unused (U ''{"target_objects": ["mug"]}''))
       (U ''target_objects'')
       = Some [JStr (U ''mug''), JStr (U ''relevant object''), JStr (U ''destination'')]\<close>
proof -
  define data1 where \<open>data1 = JObj [(U ''target_objects'', JList [JStr (U ''mug'')]),
            (U ''environment'', JObj [(U ''key_objects'',
               JList [JStr (U ''kettle''), JStr (U ''cup''), JStr (U ''sink''), JStr (U ''tap'')])])]\<close>
  define data2 where \<open>data2 = JObj [(U ''target_objects'', JList [JStr (U ''mug'')])]\<close>
  have rd1: \<open>response_data cpython_limits
      (U ''{"target_objects": ["mug"], "environment": {"key_objects": ["kettle", "cup", "sink", "tap"]}}'') = Inr data1\<close>
    by (simp add: response_data_def fence_eval json_eval data1_def)
  have rd2: \<open>response_data cpython_limits (U ''{"target_objects": ["mug"]}'') = Inr data2\<close>
    by (simp add: response_data_def fence_eval json_eval data2_def)
  have c1: \<open>coerced_list render_unused data1 (U ''target_objects'') = [JStr (U ''mug'')]\<close>
    unfolding coerced_list_def data1_def
    by (simp add: as_dict_def dict_get_def ensure_list_of_str_def py_str_def)
  have k1: \<open>coerced_key_objects render_unused data1
      = [JStr (U ''kettle''), JStr (U ''cup''), JStr (U ''sink''), JStr (U ''tap'')]\<close>
    unfolding coerced_key_objects_def data1_def
    by (simp add: as_dict_def dict_get_def ensure_list_of_str_def py_str_def)
  have c2: \<open>coerced_list render_unused data2 (U ''target_objects'') = [JStr (U ''mug'')]\<close>
    unfolding coerced_list_def data2_def
    by (simp add: as_dict_def dict_get_def ensure_list_of_str_def py_str_def)
  have k2: \<open>coerced_key_objects render_unused data2 = []\<close>
    unfolding coerced_key_objects_def data2_def
    by (simp add: as_dict_def dict_get_def ensure_list_of_str_def py_str_def)
  have t1: \<open>result_list (normalizeSingle cpython_limits render_unused
       (U ''{"target_objects": ["mug"], "environment": {"key_objects": ["kettle", "cup", "sink", "tap"]}}''))
     (U ''target_objects'') = Some [JStr (U ''mug''), JStr (U ''kettle''), JStr (U ''cup''), JStr (U ''sink'')]\<close>
    using target_objects_backfill [OF rd1, of render_unused]
    unfolding c1 k1 by simp
  have t2: \<open>result_list (normalizeSingle cpython_limits render_unused (U ''{"target_objects": ["mug"]}''))
       (U ''target_objects'')
       = Some [JStr (U ''mug''), JStr (U ''relevant object''), JStr (U ''destination'')]\<close>
    using target_objects_backfill [OF rd2, of render_unused]
    unfolding c2 k2 by (simp add: canned_target_objects_def)
  from t1 t2 show ?thesis by (rule conjI)
qed

text \<open>
  The claim as stated fails when \<open>target_objects\<close> is missing and \<open>key_objects\<close> has one entry:
  no canned placeholder is appended after the borrowed entry.
\<close>

theorem target_objects_single_entry_counterexample:
  \<open>result_list (normalizeSingle cpython_limits render_unused
       (U ''{"intent": "boil water", "environment": {"scene_type": "kitchen", "key_objects": ["kettle"]}}''))
     (U ''target_objects'') = Some [JStr (U ''kettle'')]\<close>
proof -
  have rd: \<open>response_data cpython_limits
      (U ''{"intent": "boil water", "environment": {"scene_type": "kitchen", "key_objects": ["kettle"]}}'') =
      Inr (JObj [(U ''intent'', JStr (U ''boil water'')),
            (U ''environment'', JObj [(U ''scene_type'', JStr (U ''kitchen'')),
                                      (U ''key_objects'', JList [JStr (U ''kettle'')])])])\<close>
    by (simp add: response_data_def fence_eval json_eval)
  show ?thesis
    unfolding normalizeSingle_object [OF rd] single_object_lists coerced_list_def coerced_key_objects_def
    by (simp add: as_dict_def dict_get_def ensure_list_of_str_def py_str_def target_backfilled_def)
qed

lemma json_loads_empty: "json_loads lim (strip_code_fences []) = Inl JSONDecodeError"
  by (simp add: fence_eval json_loads_def skip_ws_def)

text \<open>
  Claim C3, as amended. \<open>normalizeTemporal\<close> of the empty string raises nothing, whatever the
  limits of the interpreter, and returns the temporal object whose two strings are empty,
  whose \<open>step_roles\<close> and \<open>future_plan\<close> are empty lists, and whose \<open>uncertainty_notes\<close> is the
  list of one entry, the empty string.
\<close>

theorem normalizeTemporal_empty:
  "normalizeTemporal lim render [] =
     Inr [(U ''overall_task'', JStr []), (U ''step_roles'', JList []), (U ''possible_goal'', JStr []),
          (U ''future_plan'', JList []), (U ''uncertainty_notes'', JList [JStr []])]"
proof -
  have "strip_code_fences [] = []"
    by (simp add: fence_eval)
  then show ?thesis
    using json_loads_empty [of lim]
    by (simp add: normalizeTemporal_def fallback_temporal_def normalize_temporal_json_def
        skeleton_temporal_def as_dict_def dict_get_def str_list_def ensure_list_of_str_def
        ensure_str_def py_str_def)
qed

theorem normalizeTemporal_empty_witness:
  "result_str (normalizeTemporal cpython_limits render_unused []) (U ''overall_task'') = Some []
   \<and> result_str (normalizeTemporal cpython_limits render_unused []) (U ''possible_goal'') = Some []
   \<and> result_list (normalizeTemporal cpython_limits render_unused []) (U ''step_roles'') = Some []
   \<and> result_list (normalizeTemporal cpython_limits render_unused []) (U ''future_plan'') = Some []"
  unfolding normalizeTemporal_empty [of cpython_limits render_unused]
  by (simp add: result_str_def result_list_def)

text \<open>
  The claim as stated fails: \<open>uncertainty_notes\<close> is not the empty list, it holds the
  sanitized text, here the empty string.
\<close>

theorem normalizeTemporal_empty_counterexample:
  "result_list (normalizeTemporal cpython_limits render_unused []) (U ''uncertainty_notes'') = Some [JStr []]"
proof -
  have "strip_code_fences [] = []"
    by (simp add: fence_eval)
  then show ?thesis
    using json_loads_empty [of cpython_limits]
    by (simp add: normalizeTemporal_def fallback_temporal_def normalize_temporal_json_def
        skeleton_temporal_def as_dict_def dict_get_def str_list_def ensure_list_of_str_def
        ensure_str_def py_str_def result_list_def)
qed

theorem list_cardinalities_witness:
  \<open>result_list (normalizeSingle cpython_limits render_unused
       (U ''{"affordances": ["push", "pull"], "constraints": ["c1", "c2", "c3", "c4", "c5"]}''))
     (U ''affordances'') = Some (JStr (U ''push'') # JStr (U ''pull'') # map JStr canned_affordances)
   \<and> result_list (normalizeSingle cpython_limits render_unused
       (U ''{"affordances": ["push", "pull"], "constraints": ["c1", "c2", "c3", "c4", "c5"]}''))
     (U ''constraints'') =
       Some [JStr (U ''c1''), JStr (U ''c2''), JStr (U ''c3''), JStr (U ''c4''), JStr (U ''c5'')]\<close>
proof -
  define data where \<open>data = JObj [(U ''affordances'', JList [JStr (U ''push''), JStr (U ''pull'')]),
            (U ''constraints'',
               JList [JStr (U ''c1''), JStr (U ''c2''), JStr (U ''c3''), JStr (U ''c4''), JStr (U ''c5'')])]\<close>
  have rd: \<open>response_data cpython_limits
      (U ''{"affordances": ["push", "pull"], "constraints": ["c1", "c2", "c3", "c4", "c5"]}'') = Inr data\<close>
    by (simp add: response_data_def fence_eval json_eval data_def)
  have a: \<open>coerced_list render_unused data (U ''affordances'') = [JStr (U ''push''), JStr (U ''pull'')]\<close>
    unfolding coerced_list_def data_def
    by (simp add: as_dict_def dict_get_def ensure_list_of_str_def py_str_def)
  have c: \<open>coerced_list render_unused data (U ''constraints'') =
        [JStr (U ''c1''), JStr (U ''c2''), JStr (U ''c3''), JStr (U ''c4''), JStr (U ''c5'')]\<close>
    unfolding coerced_list_def data_def
    by (simp add: as_dict_def dict_get_def ensure_list_of_str_def py_str_def)
  show ?thesis
    using list_cardinalities [OF rd, of render_unused]
    unfolding a c by (auto simp: backfilled_def)
qed

text \<open>
  The claim as stated fails on a well-formed response with six affordances and a single key
  object: \<open>affordances\<close> keeps its six entries and \<open>target_objects\<close> has one.
\<close>

theorem list_cardinalities_counterexample:
  \<open>result_list (normalizeSingle cpython_limits render_unused
       (U ''{"affordances": ["a", "b", "c", "d", "e", "f"], "environment": {"key_objects": ["door"]}}''))
     (U ''affordances'') =
       Some [JStr (U ''a''), JStr (U ''b''), JStr (U ''c''), JStr (U ''d''), JStr (U ''e''), JStr (U ''f'')]
   \<and> result_list (normalizeSingle cpython_limits render_unused
       (U ''{"affordances": ["a", "b", "c", "d", "e", "f"], "environment": {"key_objects": ["door"]}}''))
     (U ''target_objects'') = Some [JStr (U ''door'')]\<close>
proof -
  have rd: \<open>response_data cpython_limits
      (U ''{"affordances": ["a", "b", "c", "d", "e", "f"], "environment": {"key_objects": ["door"]}}'') =
      Inr (JObj [(U ''affordances'',
               JList [JStr (U ''a''), JStr (U ''b''), JStr (U ''c''), JStr (U ''d''), JStr (U ''e''), JStr (U ''f'')]),
            (U ''environment'', JObj [(U ''key_objects'', JList [JStr (U ''door'')])])])\<close>
    by (simp add: response_data_def fence_eval json_eval)
  show ?thesis
    unfolding normalizeSingle_object [OF rd] single_object_lists coerced_list_def coerced_key_objects_def
    by (simp add: as_dict_def dict_get_def ensure_list_of_str_def py_str_def target_backfilled_def
        backfilled_def)
qed

theorem parse_failure_kept_in_explanation_witness:
  \<open>result_str (normalizeSingle cpython_limits render_unused (U ''```json I cannot answer that. ```''))
       (U ''explanation'')
     = Some (U ''I cannot answer that.'')
   \<and> result_str (normalizeSingle cpython_limits render_unused (U ''["open_door"]'')) (U ''explanation'')
     = Some []\<close>
proof -
  have s1: \<open>strip_code_fences (U ''```json I cannot answer that. ```'') = U ''I cannot answer that.''\<close>
    by (simp add: fence_eval)
  have h1: \<open>json_loads cpython_limits (strip_code_fences (U ''```json I cannot answer that. ```''))
      = Inl JSONDecodeError\<close>
    unfolding s1 by (simp add: json_eval)
  have h2: \<open>json_loads cpython_limits (strip_code_fences (U ''["open_door"]''))
      = Inr (JList [JStr (U ''open_door'')])\<close>
    by (simp add: fence_eval json_eval)
  have n: \<open>\<not> is_obj (JList [JStr (U ''open_door'')])\<close>
    by (simp add: is_obj_def)
  show ?thesis
    using parse_failure_kept_in_explanation [of cpython_limits \<open>U ''```json I cannot answer that. ```''\<close> render_unused] h1 s1
      parse_failure_kept_in_explanation [of cpython_limits \<open>U ''["open_door"]''\<close> render_unused] h2 n
    by metis
qed

text \<open>
  The claim as stated fails on the text \<open>42\<close>, which is valid JSON and not an object: the
  sanitized text is not kept in \<open>explanation\<close>.
\<close>

theorem explanation_lost_counterexample:
  \<open>strip_code_fences (U ''42'') = U ''42''
   \<and> json_loads cpython_limits (U ''42'') = Inr (JInt 42)
   \<and> result_str (normalizeSingle cpython_limits render_unused (U ''42'')) (U ''explanation'') = Some []\<close>
proof -
  have s: \<open>strip_code_fences (U ''42'') = U ''42''\<close>
    by (simp add: fence_eval)
  have p: \<open>json_loads cpython_limits (U ''42'') = Inr (JInt 42)\<close>
    by (simp add: json_eval)
  have rd: \<open>response_data cpython_limits (U ''42'') = Inr (JInt 42)\<close>
    unfolding response_data_def s p by simp
  have \<open>result_str (normalizeSingle cpython_limits render_unused (U ''42'')) (U ''explanation'') = Some []\<close>
    unfolding normalizeSingle_object [OF rd] single_object_strs
    by (simp add: as_dict_def dict_get_def ensure_str_def py_str_def)
  with s p show ?thesis by simp
qed

section \<open>Properties of the ClipAggregator\<close>

lemma IDX_TO_LABEL_cases:
  "IDX_TO_LABEL k =
     (if k = 0 then Some (U ''open_door'') else if k = 1 then Some (U ''pick_book'')
      else if k = 2 then Some (U ''pour_water'') else if k = 3 then Some (U ''walk_stop'')
      else None)"
  by (simp add: IDX_TO_LABEL_def ACTIONS_def)

lemma IDX_TO_LABEL_valid:
  "0 \<le> k \<Longrightarrow> k < 4 \<Longrightarrow> IDX_TO_LABEL k = Some (ACTIONS ! nat k)"
proof -
  assume "0 \<le> k" "k < 4"
  then have "k = 0 \<or> k = 1 \<or> k = 2 \<or> k = 3" by arith
  then show ?thesis
    by (auto simp: IDX_TO_LABEL_cases ACTIONS_def)
qed

lemma IDX_TO_LABEL_inj:
  "IDX_TO_LABEL j = Some l \<Longrightarrow> IDX_TO_LABEL k = Some l \<Longrightarrow> j = k"
  by (auto simp: IDX_TO_LABEL_cases split: if_splits)

lemma update_fresh: "k \<notin> fst ` set al \<Longrightarrow> AList.update k v al = al @ [(k, v)]"
  by (induction al) auto

lemma first_index_less: "v \<in> set xs \<Longrightarrow> first_index v xs < length xs"
  by (induction xs) auto

lemma first_index_nth: "v \<in> set xs \<Longrightarrow> xs ! first_index v xs = v"
  by (induction xs) auto

lemma first_index_least: "j < first_index v xs \<Longrightarrow> xs ! j \<noteq> v"
proof (induction xs arbitrary: j)
  case Nil
  then show ?case by simp
next
  case (Cons x xs)
  then show ?case by (cases j) (auto split: if_splits)
qed

lemma fold_max_Max: "cs \<noteq> [] \<Longrightarrow> fold max cs (0::nat) = Max (set cs)"
proof -
  assume "cs \<noteq> []"
  have "fold max cs 0 = Max (set (0 # cs))"
    by (simp only: Max.set_eq_fold)
  also have "\<dots> = Max (set cs)"
    using \<open>cs \<noteq> []\<close> by (simp add: max_absorb2)
  finally show ?thesis .
qed


lemma count_dict_of_fresh:
  "\<forall>(k, v) \<in> set kvs. 0 \<le> k \<and> k < 4 \<Longrightarrow> distinct (map fst kvs) \<Longrightarrow>
   \<forall>(k, v) \<in> set kvs. ACTIONS ! nat k \<notin> fst ` set d \<Longrightarrow>
   count_dict_of d kvs = Inr (d @ map (\<lambda>(k, v). (ACTIONS ! nat k, v)) kvs)"
proof (induction kvs arbitrary: d)
  case Nil
  then show ?case by simp
next
  case (Cons kv kvs)
  obtain k v where kv: "kv = (k, v)" by (cases kv)
  from Cons.prems kv have k: "0 \<le> k" "k < 4" by auto
  then have lbl: "IDX_TO_LABEL k = Some (ACTIONS ! nat k)" by (rule IDX_TO_LABEL_valid)
  from Cons.prems kv have fresh: "ACTIONS ! nat k \<notin> fst ` set d" by auto
  have other: "ACTIONS ! nat j \<notin> fst ` set (d @ [(ACTIONS ! nat k, v)])" if jw: "(j, w) \<in> set kvs" for j w
  proof
    assume mem: "ACTIONS ! nat j \<in> fst ` set (d @ [(ACTIONS ! nat k, v)])"
    from Cons.prems jw have j: "0 \<le> j" "j < 4" and nd: "ACTIONS ! nat j \<notin> fst ` set d" by auto
    from Cons.prems(2) kv jw have "j \<noteq> k" by force
    moreover from mem nd have "ACTIONS ! nat j = ACTIONS ! nat k" by auto
    ultimately show False
      using IDX_TO_LABEL_inj [of j "ACTIONS ! nat j" k] IDX_TO_LABEL_valid [OF j] lbl by simp
  qed
  have "count_dict_of d (kv # kvs) = count_dict_of (d @ [(ACTIONS ! nat k, v)]) kvs"
    by (simp add: kv lbl update_fresh [OF fresh])
  also have "\<dots> = Inr ((d @ [(ACTIONS ! nat k, v)]) @ map (\<lambda>(k, v). (ACTIONS ! nat k, v)) kvs)"
    using Cons.prems other by (intro Cons.IH) auto
  finally show ?case by (simp add: kv)
qed

lemma count_dict_of_invalid:
  "(k, v) \<in> set kvs \<Longrightarrow> \<not> (0 \<le> k \<and> k < 4) \<Longrightarrow> count_dict_of d kvs = Inl KeyError"
proof (induction kvs arbitrary: d)
  case Nil
  then show ?case by simp
next
  case (Cons kv kvs)
  then show ?case
    by (cases kv) (auto simp: IDX_TO_LABEL_cases split: option.splits)
qed

text \<open>The vote in closed form.\<close>

lemma majority_vote_closed:
  assumes ne: "frame_preds \<noteq> []" and valid: "\<forall>k \<in> set frame_preds. 0 \<le> k \<and> k < 4"
  defines "unique \<equiv> sort (remdups frame_preds)"
  defines "counts \<equiv> map (count_list frame_preds) unique"
  defines "m \<equiv> unique ! first_index (Max (set counts)) counts"
  shows "majority_vote frame_preds =
           Inr (Some (ACTIONS ! nat m), map (\<lambda>k. (ACTIONS ! nat k, count_list frame_preds k)) unique)"
    and "m \<in> set frame_preds"
    and "\<forall>k. count_list frame_preds k \<le> count_list frame_preds m"
    and "\<forall>k \<in> set frame_preds. count_list frame_preds k = count_list frame_preds m \<longrightarrow> m \<le> k"
proof -
  have set_u: "set unique = set frame_preds" and dist: "distinct unique" and srt: "sorted unique"
    by (simp_all add: unique_def)
  from ne set_u have une: "unique \<noteq> []" by auto
  then have cne: "counts \<noteq> []" by (simp add: counts_def)
  have len: "length counts = length unique" by (simp add: counts_def)
  define i where "i = first_index (Max (set counts)) counts"
  have Min: "Max (set counts) \<in> set counts"
    using cne by (intro Max_in) auto
  then have i_lt: "i < length counts" and i_nth: "counts ! i = Max (set counts)"
    by (simp_all add: i_def first_index_less first_index_nth)
  have m_def': "m = unique ! i" by (simp add: m_def i_def)
  from i_lt len have m_in: "m \<in> set unique" by (simp add: m_def')
  then show m_mem: "m \<in> set frame_preds" by (simp add: set_u)
  have cm: "count_list frame_preds m = Max (set counts)"
    using i_nth i_lt len by (simp add: counts_def m_def')
  show mx: "\<forall>k. count_list frame_preds k \<le> count_list frame_preds m"
  proof
    fix k
    show "count_list frame_preds k \<le> count_list frame_preds m"
    proof (cases "k \<in> set frame_preds")
      case True
      then have "count_list frame_preds k \<in> set counts" by (simp add: counts_def set_u)
      then show ?thesis unfolding cm by (intro Max_ge) auto
    next
      case False
      then show ?thesis by (simp add: count_list_0_iff)
    qed
  qed
  show "\<forall>k \<in> set frame_preds. count_list frame_preds k = count_list frame_preds m \<longrightarrow> m \<le> k"
  proof (intro ballI impI)
    fix k assume k: "k \<in> set frame_preds" and eq: "count_list frame_preds k = count_list frame_preds m"
    from k set_u obtain j where j: "j < length unique" "unique ! j = k"
      by (metis in_set_conv_nth)
    then have "counts ! j = Max (set counts)" using eq cm by (simp add: counts_def)
    then have "\<not> j < i" using first_index_least [of j "Max (set counts)" counts] by (auto simp: i_def)
    then have "i \<le> j" by simp
    with srt j show "m \<le> k" by (auto simp: m_def' sorted_iff_nth_mono)
  qed
  have kv: "count_dict_of [] (zip unique counts) =
      Inr ([] @ map (\<lambda>(k, v). (ACTIONS ! nat k, v)) (zip unique counts))"
  proof (rule count_dict_of_fresh)
    show "\<forall>(k, v) \<in> set (zip unique counts). 0 \<le> k \<and> k < 4"
      using valid set_u by (auto dest: set_zip_leftD)
    show "distinct (map fst (zip unique counts))"
      using dist len by simp
    show "\<forall>(k, v) \<in> set (zip unique counts). ACTIONS ! nat k \<notin> fst ` set []" by simp
  qed
  have zipmap: "map (\<lambda>(k, v). (ACTIONS ! nat k, v)) (zip unique counts) =
      map (\<lambda>k. (ACTIONS ! nat k, count_list frame_preds k)) unique"
    by (simp add: counts_def zip_map2 zip_same_conv_map)
  from m_mem valid have "IDX_TO_LABEL m = Some (ACTIONS ! nat m)"
    by (intro IDX_TO_LABEL_valid) auto
  then show "majority_vote frame_preds =
      Inr (Some (ACTIONS ! nat m), map (\<lambda>k. (ACTIONS ! nat k, count_list frame_preds k)) unique)"
    using kv zipmap cne
    by (simp add: majority_vote_def np_unique_def Let_def unique_def [symmetric] counts_def [symmetric]
        py_bind_def np_argmax_def fold_max_Max i_def [symmetric] m_def' [symmetric])
qed

lemma load_features_length:
  "load_features f32 dir fnames = Inr features \<Longrightarrow> length features = length fnames"
proof (induction fnames arbitrary: features)
  case Nil
  then show ?case by simp
next
  case (Cons fname fnames)
  then show ?case
    by (auto simp: py_bind_def split: option.splits sum.splits)
qed

lemma sort_remdups_set: "set xs = set ys \<Longrightarrow> sort (remdups xs) = sort (remdups ys)"
  by (simp add: sorted_list_of_set_sort_remdups [symmetric])

lemma count_list_all_same: "\<forall>p \<in> set xs. p = k \<Longrightarrow> count_list xs k = length xs"
  by (induction xs) auto

lemma majority_vote_same:
  assumes ne: "frame_preds \<noteq> []" and valid: "\<forall>k \<in> set frame_preds. 0 \<le> k \<and> k < 4"
    and same: "\<forall>p \<in> set frame_preds. p = k"
  shows "majority_vote frame_preds = Inr (Some (ACTIONS ! nat k), [(ACTIONS ! nat k, length frame_preds)])"
proof -
  from ne same have s: "set frame_preds = set [k]"
    by (cases frame_preds) auto
  have u: "sort (remdups frame_preds) = [k]"
    using sort_remdups_set [OF s] by simp
  from majority_vote_closed(2) [OF ne valid] s
  have "sort (remdups frame_preds) !
      first_index (Max (set (map (count_list frame_preds) (sort (remdups frame_preds)))))
        (map (count_list frame_preds) (sort (remdups frame_preds))) = k"
    by simp
  then show ?thesis
    using majority_vote_closed(1) [OF ne valid] u count_list_all_same [OF same] by simp
qed

lemma majority_vote_seven_three:
  assumes c0: "count_list frame_preds 0 = 7" and c3: "count_list frame_preds 3 = 3"
    and len: "length frame_preds = 10"
  shows "majority_vote frame_preds =
           Inr (Some (U ''open_door''), [(U ''open_door'', 7), (U ''walk_stop'', 3)])"
proof -
  have in0: "0 \<in> set frame_preds" and in3: "3 \<in> set frame_preds"
    using c0 c3 count_list_0_iff [of frame_preds 0] count_list_0_iff [of frame_preds 3] by linarith+
  have only: "z = 0 \<or> z = 3" if z: "z \<in> set frame_preds" for z
  proof (rule ccontr)
    assume n: "\<not> (z = 0 \<or> z = 3)"
    have "sum (count_list frame_preds) {0, 3, z} \<le> sum (count_list frame_preds) (set frame_preds)"
      using in0 in3 z by (intro sum_mono2) auto
    also have "\<dots> = length frame_preds"
      by (rule sum_count_set) auto
    finally have "count_list frame_preds z = 0"
      using n c0 c3 len by simp
    with z show False by (simp add: count_list_0_iff)
  qed
  then have s: "set frame_preds = set [0, 3]"
    using in0 in3 by auto
  have u: "sort (remdups frame_preds) = [0, 3]"
    using sort_remdups_set [OF s] by simp
  have ne: "frame_preds \<noteq> []" using len by auto
  have valid: "\<forall>k \<in> set frame_preds. 0 \<le> k \<and> k < 4"
    using only by force
  define m where "m = sort (remdups frame_preds) !
      first_index (Max (set (map (count_list frame_preds) (sort (remdups frame_preds)))))
        (map (count_list frame_preds) (sort (remdups frame_preds)))"
  have "m \<in> set frame_preds" and mx: "count_list frame_preds 0 \<le> count_list frame_preds m"
    using majority_vote_closed(2,3) [OF ne valid] by (simp_all add: m_def)
  then have "m = 0" using only [of m] c0 c3 by auto
  then show ?thesis
    using majority_vote_closed(1) [OF ne valid] u c0 c3
    by (simp add: m_def [symmetric] ACTIONS_def)
qed

lemma majority_vote_mset:
  "mset other = mset frame_preds \<Longrightarrow> majority_vote other = majority_vote frame_preds"
proof -
  assume eq: "mset other = mset frame_preds"
  then have s: "set other = set frame_preds" by (rule mset_eq_setD)
  have c: "count_list other = count_list frame_preds"
    using eq by (auto simp: fun_eq_iff count_mset [symmetric] simp del: count_mset)
  show ?thesis
    by (simp add: majority_vote_def np_unique_def sort_remdups_set [OF s] c)
qed

text \<open>
  Claim C7. For every clip with at least one pose file whose frames load and whose predictions
  (one per frame) are indices of the roster, \<open>classify_video\<close> returns the counts of every
  predicted label, each with the number of frames predicted as it, and a label whose count is
  maximal. On frames all predicted as one label it returns that label with the number of
  frames; on 10 frames of which 7 are predicted \<open>open_door\<close> and 3 \<open>walk_stop\<close> it returns
  \<open>open_door\<close> and the counts 7 and 3.
\<close>

theorem classify_video_majority:
  assumes dir: "store action_name = Some dir"
    and files: "json_files dir \<noteq> []"
    and feats: "load_features f32 dir (json_files dir) = Inr features"
    and preds: "model (scaler features) = frame_preds"
    and per_frame: "length frame_preds = length features"
    and valid: "\<forall>k \<in> set frame_preds. 0 \<le> k \<and> k < 4"
  shows "(\<exists>m. classify_video f32 store action_name model scaler =
              Inr (Some (ACTIONS ! nat m),
                   map (\<lambda>k. (ACTIONS ! nat k, count_list frame_preds k)) (sort (remdups frame_preds)))
            \<and> m \<in> set frame_preds
            \<and> (\<forall>k. count_list frame_preds k \<le> count_list frame_preds m))
    \<and> (\<forall>k. (\<forall>p \<in> set frame_preds. p = k) \<longrightarrow>
          classify_video f32 store action_name model scaler =
            Inr (Some (ACTIONS ! nat k), [(ACTIONS ! nat k, length features)]))
    \<and> (count_list frame_preds 0 = 7 \<and> count_list frame_preds 3 = 3 \<and> length features = 10 \<longrightarrow>
          classify_video f32 store action_name model scaler =
            Inr (Some (U ''open_door''), [(U ''open_door'', 7), (U ''walk_stop'', 3)]))"
proof -
  have cv: "classify_video f32 store action_name model scaler = majority_vote frame_preds"
    using dir files feats preds by (simp add: classify_video_def py_bind_def)
  have "length features = length (json_files dir)"
    using feats by (rule load_features_length)
  with files per_frame have ne: "frame_preds \<noteq> []" by auto
  obtain m where m: "majority_vote frame_preds =
      Inr (Some (ACTIONS ! nat m),
           map (\<lambda>k. (ACTIONS ! nat k, count_list frame_preds k)) (sort (remdups frame_preds)))"
      "m \<in> set frame_preds" "\<forall>k. count_list frame_preds k \<le> count_list frame_preds m"
    using majority_vote_closed(1,2,3) [OF ne valid] by blast
  have general: "\<exists>m. majority_vote frame_preds =
              Inr (Some (ACTIONS ! nat m),
                   map (\<lambda>k. (ACTIONS ! nat k, count_list frame_preds k)) (sort (remdups frame_preds)))
            \<and> m \<in> set frame_preds
            \<and> (\<forall>k. count_list frame_preds k \<le> count_list frame_preds m)"
    using m by blast
  have same: "\<forall>k. (\<forall>p \<in> set frame_preds. p = k) \<longrightarrow>
      majority_vote frame_preds = Inr (Some (ACTIONS ! nat k), [(ACTIONS ! nat k, length features)])"
    using majority_vote_same [OF ne valid] per_frame by simp
  have split: "count_list frame_preds 0 = 7 \<and> count_list frame_preds 3 = 3 \<and> length features = 10 \<longrightarrow>
      majority_vote frame_preds = Inr (Some (U ''open_door''), [(U ''open_door'', 7), (U ''walk_stop'', 3)])"
    using majority_vote_seven_three [of frame_preds] per_frame by simp
  show ?thesis
    unfolding cv using general same split by (intro conjI)
qed

text \<open>
  Claim C8. When the folder of an action is absent, or holds no pose file, \<open>classify_video\<close>
  returns \<open>None\<close> and empty counts without raising, and the loop of \<open>main\<close> goes on to the
  next action with the history, the reasoning objects and the request count unchanged.
\<close>

theorem classify_video_empty:
  assumes "store action_name = None \<or> (\<exists>dir. store action_name = Some dir \<and> json_files dir = [])"
  shows "classify_video f32 store action_name model scaler = Inr (None, [])
    \<and> main_loop lim render create f32 store model scaler (action_name # actions) st =
        main_loop lim render create f32 store model scaler actions st"
proof -
  have "classify_video f32 store action_name model scaler = Inr (None, [])"
    using assms by (auto simp: classify_video_def)
  then show ?thesis by (simp add: py_bind_def)
qed

text \<open>
  Claim C10. For a clip with at least one pose file whose frames load and whose predictions
  (one per frame) are indices of the roster, the label returned is that of an index of maximal
  count, and of the smallest such index when several tie: the counts are taken over the
  ascending distinct indices and the first maximum is chosen. Every classifier and scaler
  whose predictions on the clip have the same multiset give the same result.
\<close>

theorem classify_video_tie_break:
  assumes dir: "store action_name = Some dir"
    and files: "json_files dir \<noteq> []"
    and feats: "load_features f32 dir (json_files dir) = Inr features"
    and preds: "model (scaler features) = frame_preds"
    and per_frame: "length frame_preds = length features"
    and valid: "\<forall>k \<in> set frame_preds. 0 \<le> k \<and> k < 4"
  shows "\<exists>m. classify_video f32 store action_name model scaler =
              Inr (Some (ACTIONS ! nat m),
                   map (\<lambda>k. (ACTIONS ! nat k, count_list frame_preds k)) (sort (remdups frame_preds)))
    \<and> m \<in> set frame_preds
    \<and> (\<forall>k \<in> set frame_preds. count_list frame_preds k \<le> count_list frame_preds m)
    \<and> (\<forall>k \<in> set frame_preds. count_list frame_preds k = count_list frame_preds m \<longrightarrow> m \<le> k)
    \<and> (\<forall>model' scaler'. mset (model' (scaler' features)) = mset frame_preds \<longrightarrow>
          classify_video f32 store action_name model' scaler' =
          classify_video f32 store action_name model scaler)"
proof -
  have cv: "classify_video f32 store action_name mo sc = majority_vote (mo (sc features))" for mo sc
    using dir files feats by (simp add: classify_video_def py_bind_def)
  have "length features = length (json_files dir)"
    using feats by (rule load_features_length)
  with files per_frame have ne: "frame_preds \<noteq> []" by auto
  obtain m where m: "majority_vote frame_preds =
      Inr (Some (ACTIONS ! nat m),
           map (\<lambda>k. (ACTIONS ! nat k, count_list frame_preds k)) (sort (remdups frame_preds)))"
      "m \<in> set frame_preds" "\<forall>k. count_list frame_preds k \<le> count_list frame_preds m"
      "\<forall>k \<in> set frame_preds. count_list frame_preds k = count_list frame_preds m \<longrightarrow> m \<le> k"
    using majority_vote_closed [OF ne valid] by blast
  have "\<forall>model' scaler'. mset (model' (scaler' features)) = mset frame_preds \<longrightarrow>
          classify_video f32 store action_name model' scaler' =
          classify_video f32 store action_name model scaler"
    unfolding cv preds using majority_vote_mset by blast
  with m show ?thesis
    unfolding cv preds by blast
qed

section \<open>Properties of the PipelineOrchestrator\<close>







section \<open>The example run\<close>

lemma example_json_files:
  "json_files example_dir =
     [U ''f0.json'', U ''f1.json'', U ''f2.json'', U ''f3.json'', U ''f4.json'', U ''f5.json'',
      U ''f6.json'', U ''f7.json'', U ''f8.json'', U ''f9.json'']"
  by (simp add: json_files_def example_dir_def endswith_def startswith_def)

lemma example_features:
  "\<exists>features. load_features (\<lambda>x::int. x) example_dir (json_files example_dir) = Inr features
     \<and> length features = 10"
proof -
  have "\<exists>features. load_features (\<lambda>x::int. x) example_dir (json_files example_dir) = Inr features"
    unfolding example_json_files
    by (simp add: example_dir_def keypoints_to_vector_def np_array_def reshape3_flatten_def py_bind_def)
  then obtain features where f: "load_features (\<lambda>x::int. x) example_dir (json_files example_dir) = Inr features"
    by blast
  from load_features_length [OF f] have "length features = 10"
    by (simp add: example_json_files)
  with f show ?thesis by blast
qed


lemma example_counts:
  "count_list [0, 0, 3, 0, 0, 0, 3, 0, 3, 0] (0::int) = 7"
  "count_list [0, 0, 3, 0, 0, 0, 3, 0, 3, 0] (3::int) = 3"
  by simp_all

lemma example_classify_open_door:
  "classify_video (\<lambda>x::int. x) example_store (U ''open_door'') example_predict (\<lambda>X. X) =
     Inr (Some (U ''open_door''), [(U ''open_door'', 7), (U ''walk_stop'', 3)])"
proof -
  obtain features where f: "load_features (\<lambda>x::int. x) example_dir (json_files example_dir) = Inr features"
    and l: "length features = 10"
    using example_features by blast
  have p: "example_predict features = [0, 0, 3, 0, 0, 0, 3, 0, 3, 0]"
    by (simp add: example_predict_def l)
  have "classify_video (\<lambda>x::int. x) example_store (U ''open_door'') example_predict (\<lambda>X. X) =
      majority_vote [0, 0, 3, 0, 0, 0, 3, 0, 3, 0]"
    using f p by (simp add: classify_video_def example_store_def example_json_files py_bind_def)
  also have "\<dots> = Inr (Some (U ''open_door''), [(U ''open_door'', 7), (U ''walk_stop'', 3)])"
    by (rule majority_vote_seven_three) (simp_all add: example_counts)
  finally show ?thesis .
qed


theorem classify_video_majority_witness:
  "classify_video (\<lambda>x::int. x) example_store (U ''open_door'') example_predict (\<lambda>X. X) =
     Inr (Some (U ''open_door''), [(U ''open_door'', 7), (U ''walk_stop'', 3)])"
proof -
  obtain features where f: "load_features (\<lambda>x::int. x) example_dir (json_files example_dir) = Inr features"
    and l: "length features = 10"
    using example_features by blast
  have d: "example_store (U ''open_door'') = Some example_dir"
    by (simp add: example_store_def)
  have n: "json_files example_dir \<noteq> []"
    by (simp add: example_json_files)
  have p: "example_predict ((\<lambda>X. X) features) = [0, 0, 3, 0, 0, 0, 3, 0, 3, 0]"
    by (simp add: example_predict_def l)
  have pf: "length [0, 0, 3, 0, 0, 0, 3, 0, 3, 0::int] = length features"
    by (simp add: l)
  have v: "\<forall>k \<in> set [0, 0, 3, 0, 0, 0, 3, 0, 3, 0::int]. 0 \<le> k \<and> k < 4"
    by simp
  from classify_video_majority [of example_store "U ''open_door''" example_dir "\<lambda>x::int. x" features
      example_predict "\<lambda>X. X" "[0, 0, 3, 0, 0, 0, 3, 0, 3, 0]", OF d n f p pf v]
  show ?thesis
    using example_counts l by blast
qed

theorem classify_video_empty_witness:
  "classify_video (\<lambda>x::int. x) example_store (U ''pour_water'') example_predict (\<lambda>X. X) = Inr (None, [])
   \<and> classify_video (\<lambda>x::int. x) example_store (U ''pick_book'') example_predict (\<lambda>X. X) = Inr (None, [])"
proof -
  have h1: "example_store (U ''pour_water'') = None
      \<or> (\<exists>dir. example_store (U ''pour_water'') = Some dir \<and> json_files dir = [])"
    by (simp add: example_store_def)
  have h2: "example_store (U ''pick_book'') = None
      \<or> (\<exists>dir. example_store (U ''pick_book'') = Some dir \<and> json_files dir = [])"
    by (simp add: example_store_def json_files_def endswith_def startswith_def)
  show ?thesis
    using h1 h2
      classify_video_empty [where store = example_store and action_name = "U ''pour_water''"
        and ?f32.0 = "\<lambda>x::int. x" and model = example_predict and scaler = "\<lambda>X. X"]
      classify_video_empty [where store = example_store and action_name = "U ''pick_book''"
        and ?f32.0 = "\<lambda>x::int. x" and model = example_predict and scaler = "\<lambda>X. X"]
    by blast
qed

theorem classify_video_tie_break_witness:
  "classify_video (\<lambda>x::int. x) example_store (U ''open_door'') example_tie_predict (\<lambda>X. X) =
     Inr (Some (U ''pick_book''), [(U ''pick_book'', 5), (U ''walk_stop'', 5)])"
proof -
  obtain features where f: "load_features (\<lambda>x::int. x) example_dir (json_files example_dir) = Inr features"
    and l: "length features = 10"
    using example_features by blast
  have d: "example_store (U ''open_door'') = Some example_dir"
    by (simp add: example_store_def)
  have n: "json_files example_dir \<noteq> []"
    by (simp add: example_json_files)
  have p: "example_tie_predict ((\<lambda>X. X) features) = [3, 1, 3, 1, 3, 1, 3, 1, 3, 1]"
    by (simp add: example_tie_predict_def l)
  have pf: "length [3, 1, 3, 1, 3, 1, 3, 1, 3, 1::int] = length features"
    by (simp add: l)
  have v: "\<forall>k \<in> set [3, 1, 3, 1, 3, 1, 3, 1, 3, 1::int]. 0 \<le> k \<and> k < 4"
    by simp
  from classify_video_tie_break [of example_store "U ''open_door''" example_dir "\<lambda>x::int. x" features
      example_tie_predict "\<lambda>X. X" "[3, 1, 3, 1, 3, 1, 3, 1, 3, 1]", OF d n f p pf v]
  obtain m where
    r: "classify_video (\<lambda>x::int. x) example_store (U ''open_door'') example_tie_predict (\<lambda>X. X) =
      Inr (Some (ACTIONS ! nat m),
           map (\<lambda>k. (ACTIONS ! nat k, count_list [3, 1, 3, 1, 3, 1, 3, 1, 3, 1] k))
             (sort (remdups [3, 1, 3, 1, 3, 1, 3, 1, 3, 1])))"
    and m: "m \<in> set [3, 1, 3, 1, 3, 1, 3, 1, 3, 1]"
    and tie: "\<forall>k \<in> set [3, 1, 3, 1, 3, 1, 3, 1, 3, 1].
        count_list [3, 1, 3, 1, 3, 1, 3, 1, 3, 1] k = count_list [3, 1, 3, 1, 3, 1, 3, 1, 3, 1] m \<longrightarrow> m \<le> k"
    by blast
  from m have cases: "m = 3 \<or> m = 1" by auto
  from tie have one: "count_list [3, 1, 3, 1, 3, 1, 3, 1, 3, 1] (1::int) = count_list [3, 1, 3, 1, 3, 1, 3, 1, 3, 1] m \<longrightarrow> m \<le> 1"
    by (rule bspec) simp
  have "m \<noteq> 3"
  proof
    assume "m = 3"
    with one show False by simp
  qed
  with cases have "m = 1" by simp
  with r show ?thesis
    by (simp add: ACTIONS_def)
qed


text \<open>
  The same run with a model that answers every request with a thousand opening brackets:
  \<open>json.loads\<close> raises \<open>RecursionError\<close> on the first answer, \<open>llm_reasoning\<close> does not catch
  it and neither does \<open>main\<close>, so the run ends with this exception.
\<close>

lemma main_aborts_on_deep_response:
  "main cpython_limits render example_deep_create (\<lambda>x::int. x) example_store example_predict (\<lambda>X. X)
     = Inl RecursionError"
proof -
  have "llm_reasoning cpython_limits render (example_deep_create 0) (U ''open_door'') = Inl RecursionError"
    by (simp add: llm_reasoning_def example_deep_create_def py_bind_def content_or_empty_def
        normalizeSingle_limits)
  then have "main_loop cpython_limits render example_deep_create (\<lambda>x::int. x) example_store example_predict
      (\<lambda>X. X) ACTIONS \<lparr>action_history = [], per_action = [], temporal = None, requests = 0\<rparr>
      = Inl RecursionError"
    unfolding ACTIONS_def main_loop.simps example_classify_open_door
    by (simp add: py_bind_def)
  then show ?thesis
    by (simp add: main_def py_bind_def)
qed

end
